theory Spec2Isabelle
  imports Complex_Main "HOL-Library.Sublist"
begin

section \<open>Data model (ocr\_engine.h)\<close>

text \<open>
  A C++ \<^verbatim>\<open>double\<close> is modelled as a real number. A \<^verbatim>\<open>double\<close> member that no
  statement has assigned yet holds an indeterminate value: it is \<open>None\<close>, an assigned one is
  \<open>Some v\<close>. The members of \<^verbatim>\<open>OCREngine\<close> lose the trailing underscore of
  their C++ names, and \<^verbatim>\<open>OCRResult::text\<close> is \<open>ocr_text\<close>.
\<close>

type_synonym cdouble = "real option"

record Rect =
  rect_x :: int
  rect_y :: int
  rect_width :: int
  rect_height :: int

record OCRResult =
  ocr_text :: string
  confidence :: cdouble
  bounding_boxes :: "Rect list"
  words :: "string list"
  word_confidences :: "real list"

record DocumentInfo =
  document_type :: string
  detected_fields :: "string list"
  extracted_data :: "string \<rightharpoonup> string"
  overall_confidence :: cdouble

text \<open>\<^verbatim>\<open>OCRResult{}\<close> and \<^verbatim>\<open>DocumentInfo{}\<close>: value-initialised, every member zero or empty.\<close>

definition OCRResult_zero :: OCRResult where
  "OCRResult_zero =
     \<lparr>ocr_text = [], confidence = Some 0, bounding_boxes = [], words = [], word_confidences = []\<rparr>"

definition DocumentInfo_zero :: DocumentInfo where
  "DocumentInfo_zero =
     \<lparr>document_type = [], detected_fields = [], extracted_data = Map.empty,
      overall_confidence = Some 0\<rparr>"

text \<open>
  \<^verbatim>\<open>OCRResult result;\<close> and \<^verbatim>\<open>DocumentInfo info;\<close>: default-initialised locals. The
  strings, vectors and the map are constructed empty; the \<^verbatim>\<open>double\<close> member is left
  unassigned.
\<close>

definition OCRResult_default :: OCRResult where
  "OCRResult_default =
     \<lparr>ocr_text = [], confidence = None, bounding_boxes = [], words = [], word_confidences = []\<rparr>"

definition DocumentInfo_default :: DocumentInfo where
  "DocumentInfo_default =
     \<lparr>document_type = [], detected_fields = [], extracted_data = Map.empty,
      overall_confidence = None\<rparr>"

subsection \<open>Images\<close>

text \<open>
  An 8-bit \<^verbatim>\<open>cv::Mat\<close>: its size, its number of channels and its bytes, addressed by
  row, column and channel. \<^verbatim>\<open>Mat::empty()\<close> holds when it has no element.
\<close>

type_synonym raster = "nat \<Rightarrow> nat \<Rightarrow> nat \<Rightarrow> nat"

record Mat =
  rows :: nat
  cols :: nat
  channels :: nat
  data :: raster

definition Mat_empty :: "Mat \<Rightarrow> bool" where
  "Mat_empty m = (rows m = 0 \<or> cols m = 0)"

text \<open>A Leptonica \<^verbatim>\<open>Pix\<close>: width, height, depth and one byte per pixel.\<close>

record Pix =
  pix_w :: nat
  pix_h :: nat
  pix_d :: nat
  pix_data :: "nat \<Rightarrow> nat \<Rightarrow> nat"

type_synonym contour = "(int \<times> int) list"

record RotationMatrix =
  rot_center :: "real \<times> real"
  rot_angle :: real
  rot_scale :: real

subsection \<open>The recognizer's handle and its word iterator\<close>

text \<open>
  A \<^verbatim>\<open>tesseract::TessBaseAPI\<close> object remembers the language of its last successful
  \<^verbatim>\<open>Init\<close>. A \<^verbatim>\<open>ResultIterator\<close> stands on a current segment and has the segments
  that \<^verbatim>\<open>Next(RIL_WORD)\<close> will reach; \<^verbatim>\<open>GetUTF8Text\<close> of a segment may be null.
\<close>

record TessBaseAPI =
  tess_language :: "string option"

record segment =
  seg_text :: "string option"
  seg_conf :: real
  seg_left :: int
  seg_top :: int
  seg_right :: int
  seg_bottom :: int

type_synonym ResultIterator = "segment \<times> segment list"

datatype cpp_exception = cv_Exception | std_exception

subsection \<open>The engine\<close>

record OCREngine =
  tess_api :: "TessBaseAPI option"
  language :: string
  confidence_threshold :: real
  preprocessing_enabled :: bool
  initialized :: bool

section \<open>The external collaborators\<close>

text \<open>
  OpenCV, Leptonica and Tesseract are not part of the repository. What they compute is a
  parameter of every function below: the pixels an image operation produces, whether it
  raises \<^verbatim>\<open>cv::Exception\<close> (\<open>None\<close>), what the recognizer reads on a raster.
\<close>

record env =
  cv_imread :: "string \<Rightarrow> Mat"
  cv_gray :: "Mat \<Rightarrow> raster"
  cv_equalizeHist :: "Mat \<Rightarrow> raster option"
  cv_adaptiveThreshold :: "Mat \<Rightarrow> nat \<Rightarrow> nat \<Rightarrow> nat \<Rightarrow> raster option"
  cv_GaussianBlur :: "Mat \<Rightarrow> nat \<times> nat \<Rightarrow> real \<Rightarrow> raster option"
  cv_morphologyEx_close :: "Mat \<Rightarrow> nat \<times> nat \<Rightarrow> raster option"
  cv_findContours :: "Mat \<Rightarrow> contour list option"
  cv_contourArea :: "contour \<Rightarrow> real"
  cv_minAreaRect_angle :: "contour \<Rightarrow> real"
  cv_warpAffine :: "Mat \<Rightarrow> RotationMatrix \<Rightarrow> raster option"
  lept_pixCreate_ok :: "nat \<Rightarrow> nat \<Rightarrow> nat \<Rightarrow> bool"
  tess_Init :: "string \<Rightarrow> cpp_exception + int"
  tess_GetUTF8Text :: "TessBaseAPI option \<Rightarrow> Pix \<Rightarrow> string option"
  tess_MeanTextConf :: "TessBaseAPI option \<Rightarrow> Pix \<Rightarrow> int"
  tess_GetIterator :: "TessBaseAPI option \<Rightarrow> Pix \<Rightarrow> ResultIterator option"

text \<open>
  The image operations as the engine calls them. Each result has the size and type OpenCV
  documents for the call: \<^verbatim>\<open>cvtColor(src, dst, COLOR_BGR2GRAY)\<close> accepts a non-empty
  source of 3 or 4 channels only (it raises \<^verbatim>\<open>cv::Exception\<close> on any other) and gives
  one channel; the in-place operations keep size and channels. \<^verbatim>\<open>findContours\<close> leaves
  its source as it is (OpenCV 3.2 and later).
\<close>

definition cvtColor_BGR2GRAY :: "env \<Rightarrow> Mat \<Rightarrow> cpp_exception + Mat" where
  "cvtColor_BGR2GRAY e src =
     (if Mat_empty src \<or> (channels src \<noteq> 3 \<and> channels src \<noteq> 4) then Inl cv_Exception
      else Inr (src\<lparr>channels := 1, data := cv_gray e src\<rparr>))"

definition in_place :: "Mat \<Rightarrow> raster option \<Rightarrow> cpp_exception + Mat" where
  "in_place src r = (case r of None \<Rightarrow> Inl cv_Exception | Some d \<Rightarrow> Inr (src\<lparr>data := d\<rparr>))"

definition equalizeHist :: "env \<Rightarrow> Mat \<Rightarrow> cpp_exception + Mat" where
  "equalizeHist e src = in_place src (cv_equalizeHist e src)"

definition adaptiveThreshold :: "env \<Rightarrow> Mat \<Rightarrow> nat \<Rightarrow> nat \<Rightarrow> nat \<Rightarrow> cpp_exception + Mat" where
  "adaptiveThreshold e src maxValue blockSize C =
     in_place src (cv_adaptiveThreshold e src maxValue blockSize C)"

definition GaussianBlur :: "env \<Rightarrow> Mat \<Rightarrow> nat \<times> nat \<Rightarrow> real \<Rightarrow> cpp_exception + Mat" where
  "GaussianBlur e src ksize sigmaX = in_place src (cv_GaussianBlur e src ksize sigmaX)"

definition morphologyEx_close :: "env \<Rightarrow> Mat \<Rightarrow> nat \<times> nat \<Rightarrow> cpp_exception + Mat" where
  "morphologyEx_close e src ksize = in_place src (cv_morphologyEx_close e src ksize)"

definition findContours :: "env \<Rightarrow> Mat \<Rightarrow> cpp_exception + contour list" where
  "findContours e src =
     (case cv_findContours e src of None \<Rightarrow> Inl cv_Exception | Some cs \<Rightarrow> Inr cs)"

definition getRotationMatrix2D :: "real \<times> real \<Rightarrow> real \<Rightarrow> real \<Rightarrow> RotationMatrix" where
  "getRotationMatrix2D center angle scl =
     \<lparr>rot_center = center, rot_angle = angle, rot_scale = scl\<rparr>"

definition warpAffine :: "env \<Rightarrow> Mat \<Rightarrow> RotationMatrix \<Rightarrow> cpp_exception + Mat" where
  "warpAffine e src M = in_place src (cv_warpAffine e src M)"

definition pixCreate :: "env \<Rightarrow> nat \<Rightarrow> nat \<Rightarrow> nat \<Rightarrow> Pix option" where
  "pixCreate e w h d =
     (if lept_pixCreate_ok e w h d
      then Some \<lparr>pix_w = w, pix_h = h, pix_d = d, pix_data = (\<lambda>y x. 0)\<rparr> else None)"

section \<open>Engine lifecycle and configuration (ocr\_engine.cpp, lines 6--44 and 199--214)\<close>

definition OCREngine_new :: OCREngine where
  "OCREngine_new =
     \<lparr>tess_api = None, language = ''eng'', confidence_threshold = 60,
      preprocessing_enabled = True, initialized = False\<rparr>"

text \<open>
  \<^verbatim>\<open>initialize\<close> replaces the handle by a fresh one and calls \<^verbatim>\<open>Init\<close>; a non-zero
  return code or an exception makes it return \<^verbatim>\<open>false\<close> with \<open>initialized\<close> as it was.
\<close>

definition initialize :: "env \<Rightarrow> OCREngine \<Rightarrow> bool \<times> OCREngine" where
  "initialize e eng =
     (let eng = eng\<lparr>tess_api := Some \<lparr>tess_language = None\<rparr>\<rparr> in
      case tess_Init e (language eng) of
        Inl ex \<Rightarrow> (False, eng)
      | Inr rc \<Rightarrow>
          if rc \<noteq> 0 then (False, eng)
          else (True, eng\<lparr>tess_api := Some \<lparr>tess_language = Some (language eng)\<rparr>,
                          initialized := True\<rparr>))"

definition cleanup :: "OCREngine \<Rightarrow> OCREngine" where
  "cleanup eng =
     (let eng = (if tess_api eng \<noteq> None then eng\<lparr>tess_api := None\<rparr> else eng)
      in eng\<lparr>initialized := False\<rparr>)"

definition setLanguage :: "env \<Rightarrow> OCREngine \<Rightarrow> string \<Rightarrow> OCREngine" where
  "setLanguage e eng lang =
     (let eng = eng\<lparr>language := lang\<rparr> in
      if initialized eng then snd (initialize e (cleanup eng)) else eng)"

definition setConfidenceThreshold :: "OCREngine \<Rightarrow> real \<Rightarrow> OCREngine" where
  "setConfidenceThreshold eng threshold = eng\<lparr>confidence_threshold := threshold\<rparr>"

definition enablePreprocessing :: "OCREngine \<Rightarrow> bool \<Rightarrow> OCREngine" where
  "enablePreprocessing eng enable = eng\<lparr>preprocessing_enabled := enable\<rparr>"

section \<open>Image preprocessing (ocr\_engine.cpp, lines 216--295)\<close>

definition enhanceImage :: "env \<Rightarrow> Mat \<Rightarrow> cpp_exception + Mat" where
  "enhanceImage e input =
     (case equalizeHist e input of
        Inl ex \<Rightarrow> Inl ex
      | Inr enhanced \<Rightarrow> adaptiveThreshold e enhanced 255 11 2)"

definition removeNoise :: "env \<Rightarrow> Mat \<Rightarrow> cpp_exception + Mat" where
  "removeNoise e input =
     (case GaussianBlur e input (3, 3) 0 of
        Inl ex \<Rightarrow> Inl ex
      | Inr denoised \<Rightarrow> morphologyEx_close e denoised (2, 2))"

text \<open>
  \<^verbatim>\<open>std::max_element\<close> over a non-empty range: the first of the largest elements under
  the comparison.
\<close>

fun max_element :: "('a \<Rightarrow> 'a \<Rightarrow> bool) \<Rightarrow> 'a \<Rightarrow> 'a list \<Rightarrow> 'a" where
  "max_element lt largest [] = largest"
| "max_element lt largest (x # xs) =
     max_element lt (if lt largest x then x else largest) xs"

definition adjust_angle :: "real \<Rightarrow> real" where
  "adjust_angle angle = (if angle < - 45 then 90 + angle else angle)"

definition deskewImage :: "env \<Rightarrow> Mat \<Rightarrow> cpp_exception + Mat" where
  "deskewImage e input =
     (let deskewed = input in
      case findContours e deskewed of
        Inl ex \<Rightarrow> Inl ex
      | Inr contours \<Rightarrow>
          (case contours of
             [] \<Rightarrow> Inr deskewed
           | c # cs \<Rightarrow>
               let max_contour =
                     max_element (\<lambda>a b. cv_contourArea e a < cv_contourArea e b) c cs;
                   angle = adjust_angle (cv_minAreaRect_angle e max_contour)
               in if \<bar>angle\<bar> > 0.5
                  then warpAffine e deskewed
                         (getRotationMatrix2D
                            (real (cols deskewed) / 2, real (rows deskewed) / 2) angle 1)
                  else Inr deskewed))"

definition preprocessImage :: "env \<Rightarrow> Mat \<Rightarrow> cpp_exception + Mat" where
  "preprocessImage e input =
     (case (if channels input > 1 then cvtColor_BGR2GRAY e input else Inr input) of
        Inl ex \<Rightarrow> Inl ex
      | Inr processed \<Rightarrow>
          (case enhanceImage e processed of
             Inl ex \<Rightarrow> Inl ex
           | Inr enhanced \<Rightarrow>
               (case removeNoise e enhanced of
                  Inl ex \<Rightarrow> Inl ex
                | Inr denoised \<Rightarrow> deskewImage e denoised)))"

section \<open>Text recognition (ocr\_engine.cpp, lines 46--131)\<close>

text \<open>
  \<^verbatim>\<open>SET_DATA_BYTE(data + y * wpl, x, v)\<close> stores the byte of pixel \<open>(x, y)\<close>; the two
  nested loops of lines 85--89 copy the gray image into the \<^verbatim>\<open>Pix\<close>.
\<close>

definition SET_DATA_BYTE :: "Pix \<Rightarrow> nat \<Rightarrow> nat \<Rightarrow> nat \<Rightarrow> Pix" where
  "SET_DATA_BYTE pix y x v = pix\<lparr>pix_data := (pix_data pix)(y := (pix_data pix y)(x := v))\<rparr>"

definition copy_to_pix :: "Mat \<Rightarrow> Pix \<Rightarrow> Pix" where
  "copy_to_pix gray pix =
     foldl (\<lambda>p y. foldl (\<lambda>p x. SET_DATA_BYTE p y x (data gray y x 0)) p [0..<cols gray])
       pix [0..<rows gray]"

text \<open>
  The body of the word loop (lines 108--119): a segment with a text appends to the three
  vectors, one without is skipped. The loop is a \<^verbatim>\<open>do ... while (ri->Next(RIL_WORD))\<close>:
  it visits the current segment, then every segment \<^verbatim>\<open>Next\<close> reaches.
\<close>

definition segment_box :: "segment \<Rightarrow> Rect" where
  "segment_box s =
     \<lparr>rect_x = seg_left s, rect_y = seg_top s,
      rect_width = seg_right s - seg_left s, rect_height = seg_bottom s - seg_top s\<rparr>"

definition push_word :: "segment \<Rightarrow> OCRResult \<Rightarrow> OCRResult" where
  "push_word s result =
     (case seg_text s of
        None \<Rightarrow> result
      | Some word \<Rightarrow>
          result\<lparr>words := words result @ [word],
                 word_confidences := word_confidences result @ [seg_conf s],
                 bounding_boxes := bounding_boxes result @ [segment_box s]\<rparr>)"

fun word_loop :: "segment \<Rightarrow> segment list \<Rightarrow> OCRResult \<Rightarrow> OCRResult" where
  "word_loop cur [] result = push_word cur result"
| "word_loop cur (nxt # rest) result = word_loop nxt rest (push_word cur result)"

text \<open>
  Lines 91--122: the raster goes to the recognizer, the full text and the mean confidence
  are stored, and the word loop runs when there is an iterator. Tesseract reports
  failure by null pointers and return codes, so its calls have no exception branch here;
  pixel coordinates are far from the bounds of \<^verbatim>\<open>int\<close>, so the box arithmetic is on
  integers.
\<close>

definition recognize :: "env \<Rightarrow> TessBaseAPI option \<Rightarrow> Pix \<Rightarrow> OCRResult \<Rightarrow> OCRResult" where
  "recognize e api pix result =
     (let result = (case tess_GetUTF8Text e api pix of
                      None \<Rightarrow> result
                    | Some t \<Rightarrow> result\<lparr>ocr_text := t\<rparr>);
          result = result\<lparr>confidence := Some (real_of_int (tess_MeanTextConf e api pix))\<rparr>
      in (case tess_GetIterator e api pix of
            None \<Rightarrow> result
          | Some (cur, rest) \<Rightarrow> word_loop cur rest result))"

definition extractTextFromMat :: "env \<Rightarrow> OCREngine \<Rightarrow> Mat \<Rightarrow> OCRResult" where
  "extractTextFromMat e eng img =
     (if \<not> initialized eng then OCRResult_zero
      else
        let result = OCRResult_default in
        case (if preprocessing_enabled eng then preprocessImage e img else Inr img) of
          Inl ex \<Rightarrow> result
        | Inr processed_image \<Rightarrow>
            (case cvtColor_BGR2GRAY e processed_image of
               Inl ex \<Rightarrow> result
             | Inr gray \<Rightarrow>
                 (case pixCreate e (cols gray) (rows gray) 8 of
                    None \<Rightarrow> result
                  | Some pix \<Rightarrow>
                      recognize e (tess_api eng) (copy_to_pix gray pix) result)))"

definition extractText :: "env \<Rightarrow> OCREngine \<Rightarrow> string \<Rightarrow> OCRResult" where
  "extractText e eng image_path =
     (let img = cv_imread e image_path in
      if Mat_empty img then OCRResult_zero else extractTextFromMat e eng img)"

text \<open>
  The raster the recognizer is given for an image when preprocessing is off: the gray
  conversion of the image, copied into a fresh \<^verbatim>\<open>Pix\<close> of depth 8.
\<close>

definition gray_pix :: "env \<Rightarrow> Mat \<Rightarrow> Pix" where
  "gray_pix e img =
     copy_to_pix (img\<lparr>channels := 1, data := cv_gray e img\<rparr>)
       \<lparr>pix_w = cols img, pix_h = rows img, pix_d = 8, pix_data = (\<lambda>y x. 0)\<rparr>"

section \<open>Document analysis (ocr\_engine.cpp, lines 133--186)\<close>

text \<open>\<^verbatim>\<open>::tolower\<close> in the C locale: the 26 capital letters change, no other byte does.\<close>

definition c_tolower :: "char \<Rightarrow> char" where
  "c_tolower c =
     (case map_of (zip ''ABCDEFGHIJKLMNOPQRSTUVWXYZ'' ''abcdefghijklmnopqrstuvwxyz'') c of
        Some l \<Rightarrow> l
      | None \<Rightarrow> c)"

text \<open>\<^verbatim>\<open>std::string::find(needle)\<close>: the first position of the needle, \<open>None\<close> for \<^verbatim>\<open>npos\<close>.\<close>

fun str_find :: "string \<Rightarrow> string \<Rightarrow> nat option" where
  "str_find [] needle = (if needle = [] then Some 0 else None)"
| "str_find (c # cs) needle =
     (if prefix needle (c # cs) then Some 0 else map_option Suc (str_find cs needle))"

abbreviation npos :: "nat option" where
  "npos \<equiv> None"

definition detect_document_type :: "string \<Rightarrow> string" where
  "detect_document_type text_lower =
     (if str_find text_lower ''invoice'' \<noteq> npos \<or> str_find text_lower ''bill'' \<noteq> npos
      then ''invoice''
      else if str_find text_lower ''receipt'' \<noteq> npos then ''receipt''
      else if str_find text_lower ''contract'' \<noteq> npos \<or>
              str_find text_lower ''agreement'' \<noteq> npos
      then ''contract''
      else if str_find text_lower ''financial'' \<noteq> npos \<or>
              str_find text_lower ''report'' \<noteq> npos
      then ''financial_report''
      else ''unknown'')"

text \<open>
  The pattern \<^verbatim>\<open>field + "\\s*[:=]\\s*([^\\n]+)"\<close> with \<^verbatim>\<open>icase\<close>, as
  \<^verbatim>\<open>std::regex_search\<close> matches it (ECMAScript: greedy quantifiers, backtracking, the
  leftmost start wins). Each function matches from its part of the pattern to the
  pattern's end and returns the text of group 1. A greedy \<^verbatim>\<open>\\s*\<close> first takes one more
  whitespace character and, when the rest then fails, goes on without it.
\<close>

definition is_space :: "char \<Rightarrow> bool" where
  "is_space c \<longleftrightarrow> c \<in> set [CHR '' '', CHR 0x09, CHR 0x0A, CHR 0x0B, CHR 0x0C, CHR 0x0D]"

definition is_sep :: "char \<Rightarrow> bool" where
  "is_sep c \<longleftrightarrow> c = CHR '':'' \<or> c = CHR ''=''"

definition match_capture :: "string \<Rightarrow> string option" where
  "match_capture s =
     (let v = takeWhile (\<lambda>c. c \<noteq> CHR 0x0A) s in if v = [] then None else Some v)"

fun match_ws_capture :: "string \<Rightarrow> string option" where
  "match_ws_capture [] = match_capture []"
| "match_ws_capture (c # cs) =
     (if is_space c
      then (case match_ws_capture cs of Some v \<Rightarrow> Some v | None \<Rightarrow> match_capture (c # cs))
      else match_capture (c # cs))"

definition match_sep :: "string \<Rightarrow> string option" where
  "match_sep s =
     (case s of [] \<Rightarrow> None | c # cs \<Rightarrow> if is_sep c then match_ws_capture cs else None)"

fun match_ws_sep :: "string \<Rightarrow> string option" where
  "match_ws_sep [] = match_sep []"
| "match_ws_sep (c # cs) =
     (if is_space c
      then (case match_ws_sep cs of Some v \<Rightarrow> Some v | None \<Rightarrow> match_sep (c # cs))
      else match_sep (c # cs))"

fun match_field :: "string \<Rightarrow> string \<Rightarrow> string option" where
  "match_field [] s = match_ws_sep s"
| "match_field (p # ps) [] = None"
| "match_field (p # ps) (c # cs) =
     (if c_tolower c = c_tolower p then match_field ps cs else None)"

fun regex_search :: "string \<Rightarrow> string \<Rightarrow> string option" where
  "regex_search [] field = match_field field []"
| "regex_search (c # cs) field =
     (case match_field field (c # cs) of
        Some v \<Rightarrow> Some v
      | None \<Rightarrow> regex_search cs field)"

definition fields :: "string list" where
  "fields = [''date'', ''amount'', ''total'', ''name'', ''address'', ''phone'', ''email'']"

text \<open>The body of the loop over the fields (lines 175--180).\<close>

definition extract_field :: "string \<Rightarrow> DocumentInfo \<Rightarrow> string \<Rightarrow> DocumentInfo" where
  "extract_field txt info field =
     (case regex_search txt field of
        None \<Rightarrow> info
      | Some v \<Rightarrow>
          info\<lparr>extracted_data := (extracted_data info)(field \<mapsto> v),
               detected_fields := detected_fields info @ [field]\<rparr>)"

definition analyzeDocumentFromMat :: "env \<Rightarrow> OCREngine \<Rightarrow> Mat \<Rightarrow> DocumentInfo" where
  "analyzeDocumentFromMat e eng img =
     (let info = DocumentInfo_default;
          ocr_result = extractTextFromMat e eng img
      in if ocr_text ocr_result = [] then info
         else
           let text_lower = map c_tolower (ocr_text ocr_result);
               info = info\<lparr>document_type := detect_document_type text_lower\<rparr>;
               info = foldl (extract_field (ocr_text ocr_result)) info fields
           in info\<lparr>overall_confidence := confidence ocr_result\<rparr>)"

definition analyzeDocument :: "env \<Rightarrow> OCREngine \<Rightarrow> string \<Rightarrow> DocumentInfo" where
  "analyzeDocument e eng image_path =
     (let img = cv_imread e image_path in
      if Mat_empty img then DocumentInfo_zero else analyzeDocumentFromMat e eng img)"

section \<open>Batch processing (ocr\_engine.cpp, lines 188--197; api\_handler.cpp, lines 158--190)\<close>

definition processBatch :: "env \<Rightarrow> OCREngine \<Rightarrow> string list \<Rightarrow> OCRResult list" where
  "processBatch e eng image_paths =
     foldl (\<lambda>results path. results @ [extractText e eng path]) [] image_paths"

text \<open>
  The handler's \<^verbatim>\<open>average_confidence\<close> lambda. Adding a confidence that was never
  assigned leaves the sum indeterminate.
\<close>

definition add_confidence :: "cdouble \<Rightarrow> cdouble \<Rightarrow> cdouble" where
  "add_confidence s c =
     (case s of None \<Rightarrow> None | Some a \<Rightarrow> (case c of None \<Rightarrow> None | Some b \<Rightarrow> Some (a + b)))"

definition average_confidence :: "OCRResult list \<Rightarrow> cdouble" where
  "average_confidence results =
     (if results = [] then Some 0
      else map_option (\<lambda>s. s / real (length results))
             (foldl (\<lambda>s result. add_confidence s (confidence result)) (Some 0) results))"

text \<open>
  What \<^verbatim>\<open>handleBatchProcessing\<close> answers once the request body has been parsed into
  the list of paths: status 400 for an empty list, else the number of results and their
  average confidence.
\<close>

datatype batch_response = Error_400 | Batch_200 nat cdouble

definition handleBatchProcessing :: "env \<Rightarrow> OCREngine \<Rightarrow> string list \<Rightarrow> batch_response" where
  "handleBatchProcessing e eng file_paths =
     (if file_paths = [] then Error_400
      else
        let results = processBatch e eng file_paths
        in Batch_200 (length results) (average_confidence results))"

section \<open>The specification's words\<close>

text \<open>
  The word-level segments of the recognizer in emission order: one entry of text,
  confidence and bounding box for every segment that has a text.
\<close>

fun word_entries :: "segment list \<Rightarrow> (string \<times> real \<times> Rect) list" where
  "word_entries [] = []"
| "word_entries (s # ss) =
     (case seg_text s of
        None \<Rightarrow> word_entries ss
      | Some w \<Rightarrow> (w, seg_conf s, segment_box s) # word_entries ss)"

text \<open>The entries of a result: its three sequences read index by index.\<close>

definition result_entries :: "OCRResult \<Rightarrow> (string \<times> real \<times> Rect) list" where
  "result_entries r = zip (words r) (zip (word_confidences r) (bounding_boxes r))"

text \<open>
  Document types as ordered rules, a set of keywords and a label each: the label of the
  first rule one of whose keywords occurs in the lower-cased text, else \<^verbatim>\<open>unknown\<close>.
\<close>

definition type_rules :: "(string list \<times> string) list" where
  "type_rules =
     [([''invoice'', ''bill''], ''invoice''),
      ([''receipt''], ''receipt''),
      ([''contract'', ''agreement''], ''contract''),
      ([''financial'', ''report''], ''financial_report'')]"

definition rule_matches :: "string \<Rightarrow> string list \<times> string \<Rightarrow> bool" where
  "rule_matches lowered rule \<longleftrightarrow> (\<exists>k \<in> set (fst rule). sublist k lowered)"

definition first_matching_label :: "string \<Rightarrow> string" where
  "first_matching_label t =
     (case List.find (rule_matches (map c_tolower t)) type_rules of
        Some rule \<Rightarrow> snd rule
      | None \<Rightarrow> ''unknown'')"

text \<open>
  A field found at the start of a text: the field's name in any case, optional
  whitespace, a colon or an equals sign, optional whitespace, then a non-empty value
  without line break that ends at a line break or at the end of the text.
\<close>

definition field_match :: "string \<Rightarrow> string \<Rightarrow> string \<Rightarrow> bool" where
  "field_match field s v \<longleftrightarrow>
     (\<exists>name ws1 sep ws2 rest.
        s = name @ ws1 @ [sep] @ ws2 @ v @ rest
        \<and> map c_tolower name = map c_tolower field
        \<and> (\<forall>c \<in> set ws1. is_space c)
        \<and> is_sep sep
        \<and> (\<forall>c \<in> set ws2. is_space c)
        \<and> v \<noteq> [] \<and> CHR 0x0A \<notin> set v
        \<and> (rest = [] \<or> hd rest = CHR 0x0A))"

text \<open>
  The segments a result may come from: none, or those of an iterator that the recognizer
  of this engine returned for some raster.
\<close>

definition emitted_by :: "env \<Rightarrow> OCREngine \<Rightarrow> segment list \<Rightarrow> bool" where
  "emitted_by e eng segs \<longleftrightarrow>
     segs = [] \<or>
     (\<exists>pix cur rest. tess_GetIterator e (tess_api eng) pix = Some (cur, rest) \<and> segs = cur # rest)"

section \<open>Concrete collaborators and inputs\<close>

text \<open>
  A one-pixel colour image, and collaborators that read the file \<^verbatim>\<open>scan.png\<close> as that
  image and no other file, leave pixels as they are, find no contour, know the language
  \<^verbatim>\<open>eng\<close> only, and recognize a given text, mean confidence and word iterator.
\<close>

definition sample_image :: Mat where
  "sample_image = \<lparr>rows = 1, cols = 1, channels = 3, data = (\<lambda>y x c. 0)\<rparr>"

definition sample_env :: "string option \<Rightarrow> int \<Rightarrow> ResultIterator option \<Rightarrow> env" where
  "sample_env txt conf it =
     \<lparr>cv_imread = (\<lambda>p. if p = ''scan.png'' then sample_image
                         else sample_image\<lparr>rows := 0, cols := 0\<rparr>),
      cv_gray = (\<lambda>m y x c. data m y x 0),
      cv_equalizeHist = (\<lambda>m. Some (data m)),
      cv_adaptiveThreshold = (\<lambda>m a b c. Some (data m)),
      cv_GaussianBlur = (\<lambda>m k s. Some (data m)),
      cv_morphologyEx_close = (\<lambda>m k. Some (data m)),
      cv_findContours = (\<lambda>m. Some []),
      cv_contourArea = (\<lambda>c. 0),
      cv_minAreaRect_angle = (\<lambda>c. 0),
      cv_warpAffine = (\<lambda>m r. Some (data m)),
      lept_pixCreate_ok = (\<lambda>w h d. True),
      tess_Init = (\<lambda>l. if l = ''eng'' then Inr 0 else Inr (- 1)),
      tess_GetUTF8Text = (\<lambda>h p. txt),
      tess_MeanTextConf = (\<lambda>h p. conf),
      tess_GetIterator = (\<lambda>h p. it)\<rparr>"

definition blank_env :: env where
  "blank_env = sample_env None 0 None"

text \<open>The engine as \<^verbatim>\<open>main\<close> sets it up: constructed, then initialized.\<close>

definition ready_engine :: OCREngine where
  "ready_engine = snd (initialize blank_env OCREngine_new)"

text \<open>The same engine with preprocessing switched off.\<close>

definition plain_engine :: OCREngine where
  "plain_engine = enablePreprocessing ready_engine False"

definition sample_segments :: ResultIterator where
  "sample_segments =
     (\<lparr>seg_text = Some ''Invoice'', seg_conf = 91, seg_left = 10, seg_top = 20,
       seg_right = 70, seg_bottom = 32\<rparr>,
      [\<lparr>seg_text = None, seg_conf = 0, seg_left = 0, seg_top = 0, seg_right = 0,
        seg_bottom = 0\<rparr>,
       \<lparr>seg_text = Some ''42'', seg_conf = 88, seg_left = 80, seg_top = 20,
        seg_right = 95, seg_bottom = 32\<rparr>])"

definition invoice_env :: env where
  "invoice_env = sample_env (Some ''Invoice 42'') 90 (Some sample_segments)"

text \<open>The text of two lines \<^verbatim>\<open>Total: $450.00\<close> and \<^verbatim>\<open>Date=2024-01-05\<close>.\<close>

definition example_text :: string where
  "example_text = ''Total: $450.00'' @ [CHR 0x0A] @ ''Date=2024-01-05''"

text \<open>
  Collaborators that find three contours on every image, the second the largest, with a
  given angle for its minimum-area rectangle, and that rotate to an all-white raster.
\<close>

definition skew_env :: "real \<Rightarrow> env" where
  "skew_env a =
     blank_env
       \<lparr>cv_findContours :=
          (\<lambda>m. Some [[(0, 0), (1, 0), (1, 1)], [(0, 0), (4, 0), (4, 4), (0, 4)], [(2, 2)]]),
        cv_contourArea := (\<lambda>c. real (length c)),
        cv_minAreaRect_angle := (\<lambda>c. if length c = 4 then a else 0),
        cv_warpAffine := (\<lambda>m M. Some (\<lambda>y x c. 255))\<rparr>"

definition gray_image :: Mat where
  "gray_image = \<lparr>rows = 6, cols = 8, channels = 1, data = (\<lambda>y x c. 0)\<rparr>"

section \<open>Engine lifecycle\<close>

lemma initialize_success: "fst (initialize e eng) \<Longrightarrow> initialized (snd (initialize e eng))"
  by (simp add: initialize_def Let_def split: sum.splits if_splits)

lemma initialize_failure:
  "\<not> fst (initialize e eng) \<Longrightarrow> initialized (snd (initialize e eng)) = initialized eng"
  by (simp add: initialize_def Let_def split: sum.splits if_splits)

lemma initialize_handle:
  "fst (initialize e eng) \<Longrightarrow>
     tess_api (snd (initialize e eng)) = Some \<lparr>tess_language = Some (language eng)\<rparr>
     \<and> language (snd (initialize e eng)) = language eng"
  by (simp add: initialize_def Let_def split: sum.splits if_splits)

text \<open>Whenever the flag is set there is a handle: no call goes through a null pointer.\<close>

lemma initialize_keeps_handle:
  "tess_api (snd (initialize e eng)) \<noteq> None"
  by (simp add: initialize_def Let_def split: sum.splits if_splits)

lemma cleanup_clears: "tess_api (cleanup eng) = None \<and> \<not> initialized (cleanup eng)"
  by (simp add: cleanup_def)

lemma extractTextFromMat_uninitialized:
  "\<not> initialized eng \<Longrightarrow> extractTextFromMat e eng img = OCRResult_zero"
  by (simp add: extractTextFromMat_def)

lemma extractText_uninitialized:
  "\<not> initialized eng \<Longrightarrow> extractText e eng path = OCRResult_zero"
  by (simp add: extractText_def Let_def extractTextFromMat_uninitialized)

lemma ready_engine_eq:
  "ready_engine =
     \<lparr>tess_api = Some \<lparr>tess_language = Some ''eng''\<rparr>, language = ''eng'',
      confidence_threshold = 60, preprocessing_enabled = True, initialized = True\<rparr>"
  by (simp add: ready_engine_def blank_env_def sample_env_def initialize_def OCREngine_new_def)

text \<open>
  C10. \<^verbatim>\<open>setLanguage\<close> on an engine that is not initialized stores the language and
  does nothing else: the handle, the threshold, the preprocessing switch and the flag are
  as before, so the engine stays uninitialized, and the collaborators are not consulted
  (the result is the same for any two of them). Teardown followed by initialization
  happens exactly when the engine was initialized at the call.
\<close>

theorem setLanguage_uninitialized:
  "(\<not> initialized eng \<longrightarrow>
      setLanguage e eng lang = eng\<lparr>language := lang\<rparr>
      \<and> tess_api (setLanguage e eng lang) = tess_api eng
      \<and> confidence_threshold (setLanguage e eng lang) = confidence_threshold eng
      \<and> preprocessing_enabled (setLanguage e eng lang) = preprocessing_enabled eng
      \<and> \<not> initialized (setLanguage e eng lang)
      \<and> setLanguage e eng lang = setLanguage e' eng lang)
   \<and> (initialized eng \<longrightarrow>
      setLanguage e eng lang = snd (initialize e (cleanup (eng\<lparr>language := lang\<rparr>))))"
  by (simp add: setLanguage_def)

theorem setLanguage_uninitialized_witness:
  "\<not> initialized OCREngine_new
   \<and> setLanguage blank_env OCREngine_new ''deu'' = OCREngine_new\<lparr>language := ''deu''\<rparr>
   \<and> tess_api (setLanguage blank_env OCREngine_new ''deu'') = None
   \<and> \<not> initialized (setLanguage blank_env OCREngine_new ''deu'')
   \<and> initialized ready_engine
   \<and> setLanguage blank_env ready_engine ''eng'' =
       snd (initialize blank_env (cleanup (ready_engine\<lparr>language := ''eng''\<rparr>)))"
  using setLanguage_uninitialized [of OCREngine_new blank_env "''deu''" blank_env]
    setLanguage_uninitialized [of ready_engine blank_env "''eng''" blank_env]
  by (simp add: OCREngine_new_def ready_engine_eq)

text \<open>
  C7. \<^verbatim>\<open>setLanguage\<close> on an initialized engine is \<^verbatim>\<open>cleanup\<close> (which drops the handle)
  followed by \<^verbatim>\<open>initialize\<close> with the new language. When that initialization succeeds
  the engine is initialized with a handle for the new language. When it fails the flag is
  false, and \<^verbatim>\<open>extractTextFromMat\<close> and \<^verbatim>\<open>extractText\<close> return the zero-valued result
  for every image and path, whatever the collaborators would recognize; a later
  \<^verbatim>\<open>initialize\<close> that succeeds sets the flag again.
\<close>

theorem setLanguage_reinitializes:
  assumes "initialized eng"
  shows "setLanguage e eng lang = snd (initialize e (cleanup (eng\<lparr>language := lang\<rparr>)))
     \<and> tess_api (cleanup (eng\<lparr>language := lang\<rparr>)) = None
     \<and> (fst (initialize e (cleanup (eng\<lparr>language := lang\<rparr>))) \<longrightarrow>
          initialized (setLanguage e eng lang)
          \<and> tess_api (setLanguage e eng lang) = Some \<lparr>tess_language = Some lang\<rparr>)
     \<and> (\<not> fst (initialize e (cleanup (eng\<lparr>language := lang\<rparr>))) \<longrightarrow>
          \<not> initialized (setLanguage e eng lang)
          \<and> (\<forall>e' img. extractTextFromMat e' (setLanguage e eng lang) img = OCRResult_zero)
          \<and> (\<forall>e' path. extractText e' (setLanguage e eng lang) path = OCRResult_zero)
          \<and> (\<forall>e'. fst (initialize e' (setLanguage e eng lang)) \<longrightarrow>
                 initialized (snd (initialize e' (setLanguage e eng lang)))))"
proof -
  let ?c = "cleanup (eng\<lparr>language := lang\<rparr>)"
  have eq: "setLanguage e eng lang = snd (initialize e ?c)"
    using assms by (simp add: setLanguage_def)
  have c: "tess_api ?c = None" "\<not> initialized ?c" "language ?c = lang"
    by (simp_all add: cleanup_def)
  have ok: "fst (initialize e ?c) \<Longrightarrow> initialized (snd (initialize e ?c))
      \<and> tess_api (snd (initialize e ?c)) = Some \<lparr>tess_language = Some lang\<rparr>"
    using initialize_success [of e ?c] initialize_handle [of e ?c] c by simp
  have bad: "\<not> fst (initialize e ?c) \<Longrightarrow> \<not> initialized (snd (initialize e ?c))"
    using initialize_failure [of e ?c] c by simp
  show ?thesis
    unfolding eq using c ok bad
    by (auto simp: extractTextFromMat_uninitialized extractText_uninitialized initialize_success)
qed

theorem setLanguage_reinitializes_witness:
  "initialized ready_engine
   \<and> \<not> fst (initialize blank_env (cleanup (ready_engine\<lparr>language := ''deu''\<rparr>)))
   \<and> \<not> initialized (setLanguage blank_env ready_engine ''deu'')
   \<and> extractTextFromMat (sample_env (Some ''Invoice'') 90 None)
        (setLanguage blank_env ready_engine ''deu'') sample_image = OCRResult_zero
   \<and> extractText (sample_env (Some ''Invoice'') 90 None)
        (setLanguage blank_env ready_engine ''deu'') ''scan.png'' = OCRResult_zero
   \<and> fst (initialize blank_env (cleanup (ready_engine\<lparr>language := ''eng''\<rparr>)))
   \<and> initialized (setLanguage blank_env ready_engine ''eng'')
   \<and> tess_api (setLanguage blank_env ready_engine ''eng'') =
        Some \<lparr>tess_language = Some ''eng''\<rparr>"
proof -
  have i: "initialized ready_engine"
    by (simp add: ready_engine_eq)
  have f: "\<not> fst (initialize blank_env (cleanup (ready_engine\<lparr>language := ''deu''\<rparr>)))"
    by (simp add: ready_engine_eq cleanup_def initialize_def blank_env_def sample_env_def)
  have s: "fst (initialize blank_env (cleanup (ready_engine\<lparr>language := ''eng''\<rparr>)))"
    by (simp add: ready_engine_eq cleanup_def initialize_def blank_env_def sample_env_def)
  from setLanguage_reinitializes [OF i, of blank_env "''deu''"] f
  have d: "\<not> initialized (setLanguage blank_env ready_engine ''deu'')
      \<and> extractTextFromMat (sample_env (Some ''Invoice'') 90 None)
           (setLanguage blank_env ready_engine ''deu'') sample_image = OCRResult_zero
      \<and> extractText (sample_env (Some ''Invoice'') 90 None)
           (setLanguage blank_env ready_engine ''deu'') ''scan.png'' = OCRResult_zero"
    by blast
  from setLanguage_reinitializes [OF i, of blank_env "''eng''"] s
  have g: "initialized (setLanguage blank_env ready_engine ''eng'')
      \<and> tess_api (setLanguage blank_env ready_engine ''eng'') =
           Some \<lparr>tess_language = Some ''eng''\<rparr>"
    by blast
  from i f s d g show ?thesis
    by blast
qed

section \<open>The confidence threshold\<close>

lemma extractTextFromMat_threshold:
  "extractTextFromMat e (eng\<lparr>confidence_threshold := t\<rparr>) img = extractTextFromMat e eng img"
  by (simp add: extractTextFromMat_def Let_def cong: sum.case_cong option.case_cong)

lemma extractText_threshold:
  "extractText e (eng\<lparr>confidence_threshold := t\<rparr>) path = extractText e eng path"
  by (simp add: extractText_def Let_def extractTextFromMat_threshold)

lemma analyzeDocumentFromMat_threshold:
  "analyzeDocumentFromMat e (eng\<lparr>confidence_threshold := t\<rparr>) img =
     analyzeDocumentFromMat e eng img"
  by (simp add: analyzeDocumentFromMat_def Let_def extractTextFromMat_threshold)

lemma analyzeDocument_threshold:
  "analyzeDocument e (eng\<lparr>confidence_threshold := t\<rparr>) path = analyzeDocument e eng path"
  by (simp add: analyzeDocument_def Let_def analyzeDocumentFromMat_threshold)

lemma processBatch_threshold:
  "processBatch e (eng\<lparr>confidence_threshold := t\<rparr>) paths = processBatch e eng paths"
  by (simp add: processBatch_def extractText_threshold)

text \<open>
  C9. The stored threshold is never read: for every image, path and list of paths, two
  engines that differ only in the threshold set by \<^verbatim>\<open>setConfidenceThreshold\<close> give the
  same results from \<^verbatim>\<open>extractTextFromMat\<close>, \<^verbatim>\<open>extractText\<close>,
  \<^verbatim>\<open>analyzeDocumentFromMat\<close>, \<^verbatim>\<open>analyzeDocument\<close> and \<^verbatim>\<open>processBatch\<close>.
\<close>

theorem confidence_threshold_noninterference:
  "extractTextFromMat e (setConfidenceThreshold eng a) img =
     extractTextFromMat e (setConfidenceThreshold eng b) img
   \<and> extractText e (setConfidenceThreshold eng a) path =
       extractText e (setConfidenceThreshold eng b) path
   \<and> analyzeDocumentFromMat e (setConfidenceThreshold eng a) img =
       analyzeDocumentFromMat e (setConfidenceThreshold eng b) img
   \<and> analyzeDocument e (setConfidenceThreshold eng a) path =
       analyzeDocument e (setConfidenceThreshold eng b) path
   \<and> processBatch e (setConfidenceThreshold eng a) paths =
       processBatch e (setConfidenceThreshold eng b) paths"
  by (simp add: setConfidenceThreshold_def extractTextFromMat_threshold extractText_threshold
      analyzeDocumentFromMat_threshold analyzeDocument_threshold processBatch_threshold)

theorem confidence_threshold_noninterference_witness:
  "extractTextFromMat blank_env (setConfidenceThreshold ready_engine 0) sample_image =
     extractTextFromMat blank_env (setConfidenceThreshold ready_engine 100) sample_image
   \<and> extractText blank_env (setConfidenceThreshold ready_engine 0) ''scan.png'' =
       extractText blank_env (setConfidenceThreshold ready_engine 100) ''scan.png''
   \<and> analyzeDocumentFromMat blank_env (setConfidenceThreshold ready_engine 0) sample_image =
       analyzeDocumentFromMat blank_env (setConfidenceThreshold ready_engine 100) sample_image
   \<and> analyzeDocument blank_env (setConfidenceThreshold ready_engine 0) ''scan.png'' =
       analyzeDocument blank_env (setConfidenceThreshold ready_engine 100) ''scan.png''
   \<and> processBatch blank_env (setConfidenceThreshold ready_engine 0) [''scan.png'', ''x''] =
       processBatch blank_env (setConfidenceThreshold ready_engine 100) [''scan.png'', ''x'']"
  by (rule confidence_threshold_noninterference)

section \<open>The word loop\<close>

lemma push_word_entries:
  "words (push_word s r) = words r @ map fst (word_entries [s])
   \<and> word_confidences (push_word s r) = word_confidences r @ map (fst \<circ> snd) (word_entries [s])
   \<and> bounding_boxes (push_word s r) = bounding_boxes r @ map (snd \<circ> snd) (word_entries [s])
   \<and> ocr_text (push_word s r) = ocr_text r \<and> confidence (push_word s r) = confidence r"
  by (simp add: push_word_def split: option.splits)

lemma word_entries_Cons: "word_entries (s # ss) = word_entries [s] @ word_entries ss"
  by (simp split: option.splits)

lemma word_loop_entries:
  "words (word_loop cur rest r) = words r @ map fst (word_entries (cur # rest))
   \<and> word_confidences (word_loop cur rest r) =
       word_confidences r @ map (fst \<circ> snd) (word_entries (cur # rest))
   \<and> bounding_boxes (word_loop cur rest r) =
       bounding_boxes r @ map (snd \<circ> snd) (word_entries (cur # rest))
   \<and> ocr_text (word_loop cur rest r) = ocr_text r
   \<and> confidence (word_loop cur rest r) = confidence r"
proof (induction rest arbitrary: cur r)
  case Nil
  show ?case
    using push_word_entries [of cur r] by simp
next
  case (Cons nxt rest)
  show ?case
    using Cons.IH [of nxt "push_word cur r"] push_word_entries [of cur r]
      word_entries_Cons [of cur "nxt # rest"]
    by simp
qed

lemma zip_projections:
  "zip (map fst xs) (zip (map (fst \<circ> snd) xs) (map (snd \<circ> snd) xs)) = xs"
  by (induction xs) auto

lemma word_loop_from_empty:
  assumes "words r0 = []" "word_confidences r0 = []" "bounding_boxes r0 = []"
  shows "words (word_loop cur rest r0) = map fst (word_entries (cur # rest))
     \<and> word_confidences (word_loop cur rest r0) = map (fst \<circ> snd) (word_entries (cur # rest))
     \<and> bounding_boxes (word_loop cur rest r0) = map (snd \<circ> snd) (word_entries (cur # rest))"
  using word_loop_entries [of cur rest r0] assms by simp

lemma recognize_entries:
  "\<exists>segs. emitted_by e eng segs
     \<and> words (recognize e (tess_api eng) pix OCRResult_default) = map fst (word_entries segs)
     \<and> word_confidences (recognize e (tess_api eng) pix OCRResult_default) =
         map (fst \<circ> snd) (word_entries segs)
     \<and> bounding_boxes (recognize e (tess_api eng) pix OCRResult_default) =
         map (snd \<circ> snd) (word_entries segs)"
proof (cases "tess_GetIterator e (tess_api eng) pix")
  case None
  then have "emitted_by e eng []
      \<and> words (recognize e (tess_api eng) pix OCRResult_default) = map fst (word_entries [])
      \<and> word_confidences (recognize e (tess_api eng) pix OCRResult_default) =
          map (fst \<circ> snd) (word_entries [])
      \<and> bounding_boxes (recognize e (tess_api eng) pix OCRResult_default) =
          map (snd \<circ> snd) (word_entries [])"
    by (simp add: emitted_by_def recognize_def OCRResult_default_def split: option.splits)
  then show ?thesis by blast
next
  case (Some it)
  obtain cur rest where it: "it = (cur, rest)"
    by (cases it)
  have em: "emitted_by e eng (cur # rest)"
    using Some it by (auto simp: emitted_by_def)
  obtain r0 where r0: "recognize e (tess_api eng) pix OCRResult_default = word_loop cur rest r0"
    "words r0 = []" "word_confidences r0 = []" "bounding_boxes r0 = []"
    using Some it by (simp add: recognize_def OCRResult_default_def split: option.splits)
  show ?thesis
    using em word_loop_from_empty [OF r0(2-4), of cur rest] r0(1) by metis
qed

lemma extractTextFromMat_shape:
  "extractTextFromMat e eng img = OCRResult_zero
   \<or> extractTextFromMat e eng img = OCRResult_default
   \<or> (\<exists>pix. extractTextFromMat e eng img = recognize e (tess_api eng) pix OCRResult_default)"
  by (auto simp: extractTextFromMat_def split: sum.splits option.splits)

lemma extractTextFromMat_entries:
  "\<exists>segs. emitted_by e eng segs
     \<and> words (extractTextFromMat e eng img) = map fst (word_entries segs)
     \<and> word_confidences (extractTextFromMat e eng img) = map (fst \<circ> snd) (word_entries segs)
     \<and> bounding_boxes (extractTextFromMat e eng img) = map (snd \<circ> snd) (word_entries segs)"
proof -
  let ?r = "extractTextFromMat e eng img"
  have none: "words ?r = [] \<and> word_confidences ?r = [] \<and> bounding_boxes ?r = [] \<Longrightarrow> ?thesis"
  proof -
    assume "words ?r = [] \<and> word_confidences ?r = [] \<and> bounding_boxes ?r = []"
    then have "emitted_by e eng []
        \<and> words ?r = map fst (word_entries [])
        \<and> word_confidences ?r = map (fst \<circ> snd) (word_entries [])
        \<and> bounding_boxes ?r = map (snd \<circ> snd) (word_entries [])"
      by (simp add: emitted_by_def)
    then show ?thesis by blast
  qed
  from extractTextFromMat_shape [of e eng img] show ?thesis
  proof (elim disjE exE)
    assume "?r = OCRResult_zero"
    then show ?thesis
      using none by (simp add: OCRResult_zero_def)
  next
    assume "?r = OCRResult_default"
    then show ?thesis
      using none by (simp add: OCRResult_default_def)
  next
    fix pix
    assume "?r = recognize e (tess_api eng) pix OCRResult_default"
    then show ?thesis
      using recognize_entries [of e eng pix] by simp
  qed
qed

lemma extractText_entries:
  "\<exists>segs. emitted_by e eng segs
     \<and> words (extractText e eng path) = map fst (word_entries segs)
     \<and> word_confidences (extractText e eng path) = map (fst \<circ> snd) (word_entries segs)
     \<and> bounding_boxes (extractText e eng path) = map (snd \<circ> snd) (word_entries segs)"
proof (cases "Mat_empty (cv_imread e path)")
  case True
  then have "extractText e eng path = OCRResult_zero"
    by (simp add: extractText_def)
  then have "emitted_by e eng []
      \<and> words (extractText e eng path) = map fst (word_entries [])
      \<and> word_confidences (extractText e eng path) = map (fst \<circ> snd) (word_entries [])
      \<and> bounding_boxes (extractText e eng path) = map (snd \<circ> snd) (word_entries [])"
    by (simp add: emitted_by_def OCRResult_zero_def)
  then show ?thesis by blast
next
  case False
  then have "extractText e eng path = extractTextFromMat e eng (cv_imread e path)"
    by (simp add: extractText_def)
  then show ?thesis
    using extractTextFromMat_entries [of e eng "cv_imread e path"] by simp
qed

lemma parallel_from_entries:
  assumes "words r = map fst es" "word_confidences r = map (fst \<circ> snd) es"
    "bounding_boxes r = map (snd \<circ> snd) es"
  shows "length (words r) = length (word_confidences r)
     \<and> length (word_confidences r) = length (bounding_boxes r)
     \<and> result_entries r = es"
  using assms by (simp add: result_entries_def zip_projections)

text \<open>
  C1. In every result of \<^verbatim>\<open>extractTextFromMat\<close> and of \<^verbatim>\<open>extractText\<close>, for any
  collaborators, engine state, image and path, the sequences \<open>words\<close>,
  \<open>word_confidences\<close> and \<open>bounding_boxes\<close> have the same length, and read index by
  index they are the entries (text, confidence, box) of segments the recognizer emitted:
  the three values at one index belong to one segment.
\<close>

theorem parallel_sequences:
  "length (words (extractTextFromMat e eng img)) =
     length (word_confidences (extractTextFromMat e eng img))
   \<and> length (word_confidences (extractTextFromMat e eng img)) =
       length (bounding_boxes (extractTextFromMat e eng img))
   \<and> (\<exists>segs. emitted_by e eng segs
         \<and> result_entries (extractTextFromMat e eng img) = word_entries segs)
   \<and> length (words (extractText e eng path)) = length (word_confidences (extractText e eng path))
   \<and> length (word_confidences (extractText e eng path)) =
       length (bounding_boxes (extractText e eng path))
   \<and> (\<exists>segs. emitted_by e eng segs
         \<and> result_entries (extractText e eng path) = word_entries segs)"
proof -
  obtain segs where a: "emitted_by e eng segs"
    "words (extractTextFromMat e eng img) = map fst (word_entries segs)"
    "word_confidences (extractTextFromMat e eng img) = map (fst \<circ> snd) (word_entries segs)"
    "bounding_boxes (extractTextFromMat e eng img) = map (snd \<circ> snd) (word_entries segs)"
    using extractTextFromMat_entries [of e eng img] by blast
  obtain segs' where b: "emitted_by e eng segs'"
    "words (extractText e eng path) = map fst (word_entries segs')"
    "word_confidences (extractText e eng path) = map (fst \<circ> snd) (word_entries segs')"
    "bounding_boxes (extractText e eng path) = map (snd \<circ> snd) (word_entries segs')"
    using extractText_entries [of e eng path] by blast
  show ?thesis
    using parallel_from_entries [OF a(2-4)] parallel_from_entries [OF b(2-4)] a(1) b(1)
    by blast
qed

section \<open>Preprocessing and the conversion to gray\<close>

lemma in_place_channels: "in_place src r = Inr m \<Longrightarrow> channels m = channels src"
  by (auto simp: in_place_def split: option.splits)

lemma enhanceImage_channels: "enhanceImage e input = Inr m \<Longrightarrow> channels m = channels input"
  by (auto simp: enhanceImage_def equalizeHist_def adaptiveThreshold_def
      split: sum.splits dest!: in_place_channels)

lemma removeNoise_channels: "removeNoise e input = Inr m \<Longrightarrow> channels m = channels input"
  by (auto simp: removeNoise_def GaussianBlur_def morphologyEx_close_def
      split: sum.splits dest!: in_place_channels)

lemma deskewImage_channels: "deskewImage e input = Inr m \<Longrightarrow> channels m = channels input"
  by (auto simp: deskewImage_def Let_def warpAffine_def
      split: sum.splits list.splits if_splits dest!: in_place_channels)

lemma cvtColor_BGR2GRAY_channels: "cvtColor_BGR2GRAY e src = Inr m \<Longrightarrow> channels m = 1"
  by (auto simp: cvtColor_BGR2GRAY_def split: if_splits)

text \<open>Whatever the image operations compute, a preprocessed image has at most one channel.\<close>

lemma preprocessImage_channels:
  assumes "preprocessImage e input = Inr m"
  shows "channels m \<le> 1"
proof -
  obtain g en dn where
    g: "(if channels input > 1 then cvtColor_BGR2GRAY e input else Inr input) = Inr g" and
    en: "enhanceImage e g = Inr en" and
    dn: "removeNoise e en = Inr dn" and
    m: "deskewImage e dn = Inr m"
    using assms by (auto simp: preprocessImage_def split: sum.splits)
  have "channels g \<le> 1"
    using g cvtColor_BGR2GRAY_channels [of e input g] by (auto split: if_splits)
  then show ?thesis
    using enhanceImage_channels [OF en] removeNoise_channels [OF dn] deskewImage_channels [OF m]
    by simp
qed

lemma cvtColor_BGR2GRAY_rejects: "channels src \<le> 1 \<Longrightarrow> cvtColor_BGR2GRAY e src = Inl cv_Exception"
  by (simp add: cvtColor_BGR2GRAY_def)

text \<open>
  So with preprocessing enabled the second conversion to gray (line 73) always raises, the
  handler of line 126 catches it, and the default-initialised result is returned.
\<close>

lemma preprocessed_never_recognized:
  assumes "initialized eng" "preprocessing_enabled eng"
  shows "extractTextFromMat e eng img = OCRResult_default"
proof (cases "preprocessImage e img")
  case (Inl ex)
  then show ?thesis
    using assms by (simp add: extractTextFromMat_def)
next
  case (Inr m)
  then have "cvtColor_BGR2GRAY e m = Inl cv_Exception"
    using preprocessImage_channels [of e img m] cvtColor_BGR2GRAY_rejects by simp
  then show ?thesis
    using assms Inr by (simp add: extractTextFromMat_def)
qed

text \<open>
  Without preprocessing, a non-empty image of 3 or 4 channels whose \<^verbatim>\<open>Pix\<close> can be
  created reaches the recognizer: the result holds its full text, its mean confidence and
  the entries of its segments in emission order.
\<close>

lemma extractTextFromMat_plain:
  assumes "initialized eng" "\<not> preprocessing_enabled eng" "\<not> Mat_empty img"
    "channels img = 3 \<or> channels img = 4" "lept_pixCreate_ok e (cols img) (rows img) 8"
  shows "extractTextFromMat e eng img = recognize e (tess_api eng) (gray_pix e img) OCRResult_default"
  using assms
  by (auto simp: extractTextFromMat_def cvtColor_BGR2GRAY_def pixCreate_def gray_pix_def)

lemma recognize_result:
  "ocr_text (recognize e api pix OCRResult_default) =
     (case tess_GetUTF8Text e api pix of None \<Rightarrow> [] | Some t \<Rightarrow> t)
   \<and> confidence (recognize e api pix OCRResult_default) =
       Some (real_of_int (tess_MeanTextConf e api pix))
   \<and> result_entries (recognize e api pix OCRResult_default) =
       word_entries (case tess_GetIterator e api pix of
                       None \<Rightarrow> [] | Some (cur, rest) \<Rightarrow> cur # rest)"
proof (cases "tess_GetIterator e api pix")
  case None
  then show ?thesis
    by (simp add: recognize_def OCRResult_default_def result_entries_def split: option.splits)
next
  case (Some it)
  obtain cur rest where it: "it = (cur, rest)"
    by (cases it)
  let ?r0 = "(case tess_GetUTF8Text e api pix of
                None \<Rightarrow> OCRResult_default
              | Some t \<Rightarrow> OCRResult_default\<lparr>ocr_text := t\<rparr>)
             \<lparr>confidence := Some (real_of_int (tess_MeanTextConf e api pix))\<rparr>"
  have r: "recognize e api pix OCRResult_default = word_loop cur rest ?r0"
    using Some it by (simp add: recognize_def)
  have e0: "words ?r0 = []" "word_confidences ?r0 = []" "bounding_boxes ?r0 = []"
    by (simp_all add: OCRResult_default_def split: option.splits)
  have t0: "ocr_text ?r0 = (case tess_GetUTF8Text e api pix of None \<Rightarrow> [] | Some t \<Rightarrow> t)"
    "confidence ?r0 = Some (real_of_int (tess_MeanTextConf e api pix))"
    by (simp_all add: OCRResult_default_def split: option.splits)
  have "result_entries (word_loop cur rest ?r0) = word_entries (cur # rest)"
    using word_loop_from_empty [OF e0, of cur rest]
    by (simp add: result_entries_def zip_projections)
  then show ?thesis
    using r t0 word_loop_entries [of cur rest ?r0] Some it by simp
qed

text \<open>The two copy loops fill the \<^verbatim>\<open>Pix\<close> with the gray image, pixel by pixel.\<close>

lemma row_copy:
  "foldl (\<lambda>p x. SET_DATA_BYTE p y x (g x)) p [0..<n] =
     p\<lparr>pix_data := (\<lambda>y' x'. if y' = y \<and> x' < n then g x' else pix_data p y' x')\<rparr>"
proof (induction n)
  case 0
  show ?case by simp
next
  case (Suc n)
  let ?F = "\<lambda>p x. SET_DATA_BYTE p y x (g x)"
  have "foldl ?F p [0..<Suc n] = ?F (foldl ?F p [0..<n]) n"
    by simp
  also have "\<dots> = ?F (p\<lparr>pix_data := (\<lambda>y' x'. if y' = y \<and> x' < n then g x'
                                           else pix_data p y' x')\<rparr>) n"
    by (simp only: Suc.IH)
  also have "\<dots> = p\<lparr>pix_data := (\<lambda>y' x'. if y' = y \<and> x' < Suc n then g x'
                                       else pix_data p y' x')\<rparr>"
    by (auto simp: SET_DATA_BYTE_def fun_eq_iff less_Suc_eq)
  finally show ?case .
qed

lemma copy_to_pix_rows:
  "foldl (\<lambda>p y. foldl (\<lambda>p x. SET_DATA_BYTE p y x (g y x)) p [0..<w]) p [0..<h] =
     p\<lparr>pix_data := (\<lambda>y x. if y < h \<and> x < w then g y x else pix_data p y x)\<rparr>"
proof (induction h)
  case 0
  show ?case by simp
next
  case (Suc h)
  let ?F = "\<lambda>p y. foldl (\<lambda>p x. SET_DATA_BYTE p y x (g y x)) p [0..<w]"
  have "foldl ?F p [0..<Suc h] = ?F (foldl ?F p [0..<h]) h"
    by simp
  also have "\<dots> = ?F (p\<lparr>pix_data := (\<lambda>y x. if y < h \<and> x < w then g y x
                                         else pix_data p y x)\<rparr>) h"
    by (simp only: Suc.IH)
  also have "\<dots> = p\<lparr>pix_data := (\<lambda>y x. if y < Suc h \<and> x < w then g y x
                                     else pix_data p y x)\<rparr>"
    by (auto simp: row_copy fun_eq_iff less_Suc_eq)
  finally show ?case .
qed

lemma copy_to_pix_eq:
  "copy_to_pix gray pix =
     pix\<lparr>pix_data := (\<lambda>y x. if y < rows gray \<and> x < cols gray then data gray y x 0
                              else pix_data pix y x)\<rparr>"
  unfolding copy_to_pix_def by (rule copy_to_pix_rows)

lemma gray_pix_eq:
  "gray_pix e img =
     \<lparr>pix_w = cols img, pix_h = rows img, pix_d = 8,
      pix_data = (\<lambda>y x. if y < rows img \<and> x < cols img then cv_gray e img y x 0 else 0)\<rparr>"
  by (simp add: gray_pix_def copy_to_pix_eq fun_eq_iff)

lemma plain_engine_eq:
  "plain_engine =
     \<lparr>tess_api = Some \<lparr>tess_language = Some ''eng''\<rparr>, language = ''eng'',
      confidence_threshold = 60, preprocessing_enabled = False, initialized = True\<rparr>"
  by (simp add: plain_engine_def enablePreprocessing_def ready_engine_eq)

lemma sample_image_ok:
  "\<not> Mat_empty sample_image \<and> channels sample_image = 3
   \<and> cols sample_image = 1 \<and> rows sample_image = 1"
  by (simp add: sample_image_def Mat_empty_def)

lemma sample_env_fields:
  "lept_pixCreate_ok (sample_env tx conf it) w h d
   \<and> tess_GetUTF8Text (sample_env tx conf it) api pix = tx
   \<and> tess_MeanTextConf (sample_env tx conf it) api pix = conf
   \<and> tess_GetIterator (sample_env tx conf it) api pix = it
   \<and> cv_imread (sample_env tx conf it) ''scan.png'' = sample_image
   \<and> Mat_empty (cv_imread (sample_env tx conf it) ''missing.png'')"
  by (simp add: sample_env_def sample_image_def Mat_empty_def)

lemma extractTextFromMat_sample:
  "extractTextFromMat (sample_env tx conf it) plain_engine sample_image =
     recognize (sample_env tx conf it) (tess_api plain_engine)
       (gray_pix (sample_env tx conf it) sample_image) OCRResult_default"
  using extractTextFromMat_plain [of plain_engine sample_image "sample_env tx conf it"]
    sample_image_ok sample_env_fields [of tx conf it]
  by (simp add: plain_engine_eq)

lemma sample_recognized:
  "ocr_text (extractTextFromMat (sample_env tx conf it) plain_engine sample_image) =
     (case tx of None \<Rightarrow> [] | Some t \<Rightarrow> t)
   \<and> confidence (extractTextFromMat (sample_env tx conf it) plain_engine sample_image) =
       Some (real_of_int conf)
   \<and> result_entries (extractTextFromMat (sample_env tx conf it) plain_engine sample_image) =
       word_entries (case it of None \<Rightarrow> [] | Some (cur, rest) \<Rightarrow> cur # rest)"
  using recognize_result [of "sample_env tx conf it" "tess_api plain_engine"
      "gray_pix (sample_env tx conf it) sample_image"]
    sample_env_fields [of tx conf it]
  by (simp add: extractTextFromMat_sample)

theorem parallel_sequences_witness:
  "length (words (extractTextFromMat invoice_env plain_engine sample_image)) =
     length (word_confidences (extractTextFromMat invoice_env plain_engine sample_image))
   \<and> length (word_confidences (extractTextFromMat invoice_env plain_engine sample_image)) =
       length (bounding_boxes (extractTextFromMat invoice_env plain_engine sample_image))
   \<and> result_entries (extractTextFromMat invoice_env plain_engine sample_image) =
       [(''Invoice'', 91, \<lparr>rect_x = 10, rect_y = 20, rect_width = 60, rect_height = 12\<rparr>),
        (''42'', 88, \<lparr>rect_x = 80, rect_y = 20, rect_width = 15, rect_height = 12\<rparr>)]"
  using parallel_sequences [of invoice_env plain_engine sample_image "''scan.png''"]
    sample_recognized [of "Some ''Invoice 42''" 90 "Some sample_segments"]
  by (simp add: invoice_env_def sample_segments_def segment_box_def)

text \<open>
  C2. The engine as \<^verbatim>\<open>main\<close> sets it up has preprocessing enabled. Given a colour
  image on which the recognizer would read the text \<^verbatim>\<open>Invoice 42\<close> with mean
  confidence 90 and two words, \<^verbatim>\<open>extractTextFromMat\<close> returns the default-initialised
  result: empty text, no word, the confidence never assigned. The same call with
  preprocessing switched off returns the recognizer's text, confidence and words.
\<close>

theorem extractTextFromMat_preprocessing_enabled:
  "initialized ready_engine \<and> preprocessing_enabled ready_engine
   \<and> extractTextFromMat invoice_env ready_engine sample_image = OCRResult_default
   \<and> ocr_text (extractTextFromMat invoice_env ready_engine sample_image) = []
   \<and> confidence (extractTextFromMat invoice_env ready_engine sample_image) = None
   \<and> words (extractTextFromMat invoice_env ready_engine sample_image) = []
   \<and> ocr_text (extractTextFromMat invoice_env plain_engine sample_image) = ''Invoice 42''
   \<and> confidence (extractTextFromMat invoice_env plain_engine sample_image) = Some 90
   \<and> result_entries (extractTextFromMat invoice_env plain_engine sample_image) =
       [(''Invoice'', 91, \<lparr>rect_x = 10, rect_y = 20, rect_width = 60, rect_height = 12\<rparr>),
        (''42'', 88, \<lparr>rect_x = 80, rect_y = 20, rect_width = 15, rect_height = 12\<rparr>)]"
proof -
  have i: "initialized ready_engine" "preprocessing_enabled ready_engine"
    by (simp_all add: ready_engine_eq)
  show ?thesis
    using i preprocessed_never_recognized [OF i, of invoice_env sample_image]
      sample_recognized [of "Some ''Invoice 42''" 90 "Some sample_segments"]
    by (simp add: invoice_env_def OCRResult_default_def sample_segments_def segment_box_def)
qed

section \<open>Empty text\<close>

lemma analyzeDocumentFromMat_empty:
  "ocr_text (extractTextFromMat e eng img) = [] \<Longrightarrow>
     analyzeDocumentFromMat e eng img = DocumentInfo_default"
  by (simp add: analyzeDocumentFromMat_def Let_def)

lemma extractText_unreadable:
  "Mat_empty (cv_imread e path) \<Longrightarrow> extractText e eng path = OCRResult_zero"
  by (simp add: extractText_def)

lemma extractText_readable:
  "\<not> Mat_empty (cv_imread e path) \<Longrightarrow>
     extractText e eng path = extractTextFromMat e eng (cv_imread e path)"
  by (simp add: extractText_def)

text \<open>
  When the recognized text is empty, \<^verbatim>\<open>analyzeDocumentFromMat\<close> returns its local
  \<^verbatim>\<open>info\<close> as it was declared, untouched by classification and field extraction:
  \<open>document_type\<close> is empty, \<open>detected_fields\<close> is empty and \<open>extracted_data\<close> is
  empty. \<^verbatim>\<open>analyzeDocument\<close> returns \<^verbatim>\<open>DocumentInfo{}\<close> for a path that cannot be read,
  and the same three empty members whenever the text recognized on the path is empty.
\<close>

lemma empty_text_members:
  "(ocr_text (extractTextFromMat e eng img) = [] \<longrightarrow>
      analyzeDocumentFromMat e eng img = DocumentInfo_default
      \<and> document_type (analyzeDocumentFromMat e eng img) = []
      \<and> detected_fields (analyzeDocumentFromMat e eng img) = []
      \<and> extracted_data (analyzeDocumentFromMat e eng img) = Map.empty)
   \<and> (Mat_empty (cv_imread e path) \<longrightarrow> analyzeDocument e eng path = DocumentInfo_zero)
   \<and> (ocr_text (extractText e eng path) = [] \<longrightarrow>
      document_type (analyzeDocument e eng path) = []
      \<and> detected_fields (analyzeDocument e eng path) = []
      \<and> extracted_data (analyzeDocument e eng path) = Map.empty)"
proof (intro conjI impI)
  assume a: "ocr_text (extractText e eng path) = []"
  have "document_type (analyzeDocument e eng path) = []
      \<and> detected_fields (analyzeDocument e eng path) = []
      \<and> extracted_data (analyzeDocument e eng path) = Map.empty"
  proof (cases "Mat_empty (cv_imread e path)")
    case True
    then show ?thesis
      by (simp add: analyzeDocument_def DocumentInfo_zero_def)
  next
    case False
    then have "analyzeDocument e eng path = DocumentInfo_default"
      using a analyzeDocumentFromMat_empty [of e eng "cv_imread e path"]
      by (simp add: analyzeDocument_def extractText_readable)
    then show ?thesis
      by (simp add: DocumentInfo_default_def)
  qed
  then show "document_type (analyzeDocument e eng path) = []"
    and "detected_fields (analyzeDocument e eng path) = []"
    and "extracted_data (analyzeDocument e eng path) = Map.empty"
    by simp_all
qed (simp_all add: analyzeDocumentFromMat_empty DocumentInfo_default_def analyzeDocument_def)

lemma empty_text_members_instance:
  "ocr_text (extractTextFromMat (sample_env (Some []) 0 None) plain_engine sample_image) = []
   \<and> analyzeDocumentFromMat (sample_env (Some []) 0 None) plain_engine sample_image =
       DocumentInfo_default
   \<and> document_type
        (analyzeDocumentFromMat (sample_env (Some []) 0 None) plain_engine sample_image) = []
   \<and> detected_fields
        (analyzeDocumentFromMat (sample_env (Some []) 0 None) plain_engine sample_image) = []
   \<and> extracted_data
        (analyzeDocumentFromMat (sample_env (Some []) 0 None) plain_engine sample_image) =
       Map.empty
   \<and> Mat_empty (cv_imread (sample_env (Some []) 0 None) ''missing.png'')
   \<and> analyzeDocument (sample_env (Some []) 0 None) plain_engine ''missing.png'' =
       DocumentInfo_zero
   \<and> ocr_text (extractText (sample_env (Some []) 0 None) plain_engine ''scan.png'') = []
   \<and> document_type (analyzeDocument (sample_env (Some []) 0 None) plain_engine ''scan.png'') = []"
proof -
  let ?e = "sample_env (Some []) 0 None"
  have t: "ocr_text (extractTextFromMat ?e plain_engine sample_image) = []"
    using sample_recognized [of "Some []" 0 None] by simp
  have m: "Mat_empty (cv_imread ?e ''missing.png'')"
    using sample_env_fields [of "Some []" 0 None] by simp
  have p: "ocr_text (extractText ?e plain_engine ''scan.png'') = []"
    using t sample_env_fields [of "Some []" 0 None] sample_image_ok
    by (simp add: extractText_def)
  show ?thesis
    using empty_text_members [of ?e plain_engine sample_image "''missing.png''"]
      empty_text_members [of ?e plain_engine sample_image "''scan.png''"] t m p
    by blast
qed

text \<open>
  The fourth member is another matter: the local was declared without an initialiser and
  the early return comes before the only assignment to \<open>overall_confidence\<close>, so the
  value returned is never \<^verbatim>\<open>DocumentInfo{}\<close>.
\<close>

lemma empty_text_not_zero:
  assumes "ocr_text (extractTextFromMat e eng img) = []"
  shows "overall_confidence (analyzeDocumentFromMat e eng img) = None
     \<and> analyzeDocumentFromMat e eng img \<noteq> DocumentInfo_zero"
proof -
  have d: "analyzeDocumentFromMat e eng img = DocumentInfo_default"
    using assms by (rule analyzeDocumentFromMat_empty)
  have "overall_confidence DocumentInfo_default \<noteq> overall_confidence DocumentInfo_zero"
    by (simp add: DocumentInfo_default_def DocumentInfo_zero_def)
  then have "DocumentInfo_default \<noteq> DocumentInfo_zero"
    by auto
  then show ?thesis
    using d by (simp add: DocumentInfo_default_def)
qed

lemma uninitialized_text_empty: "ocr_text (extractTextFromMat e OCREngine_new img) = []"
  by (simp add: extractTextFromMat_def OCREngine_new_def OCRResult_zero_def)

text \<open>
  C8. The engine as \<^verbatim>\<open>main\<close> sets it up recognizes the empty text on the readable
  file \<^verbatim>\<open>scan.png\<close>, and \<^verbatim>\<open>analyzeDocument\<close> returns a document info whose type,
  detected fields and extracted data are empty but whose \<open>overall_confidence\<close> was never
  assigned: it is not \<^verbatim>\<open>DocumentInfo{}\<close>. The same holds for a blank page read with
  preprocessing off (recognized text empty, mean confidence 0) and for an engine that was
  never initialized. Only the unreadable file \<^verbatim>\<open>missing.png\<close> yields \<^verbatim>\<open>DocumentInfo{}\<close>.
\<close>

theorem analyzeDocument_empty_text_unassigned:
  "ocr_text (extractText invoice_env ready_engine ''scan.png'') = []
   \<and> analyzeDocument invoice_env ready_engine ''scan.png'' = DocumentInfo_default
   \<and> document_type (analyzeDocument invoice_env ready_engine ''scan.png'') = []
   \<and> detected_fields (analyzeDocument invoice_env ready_engine ''scan.png'') = []
   \<and> extracted_data (analyzeDocument invoice_env ready_engine ''scan.png'') = Map.empty
   \<and> overall_confidence (analyzeDocument invoice_env ready_engine ''scan.png'') = None
   \<and> analyzeDocument invoice_env ready_engine ''scan.png'' \<noteq> DocumentInfo_zero
   \<and> ocr_text (extractTextFromMat (sample_env (Some []) 0 None) plain_engine sample_image) = []
   \<and> confidence (extractTextFromMat (sample_env (Some []) 0 None) plain_engine sample_image) =
       Some 0
   \<and> overall_confidence
        (analyzeDocumentFromMat (sample_env (Some []) 0 None) plain_engine sample_image) = None
   \<and> analyzeDocumentFromMat (sample_env (Some []) 0 None) plain_engine sample_image \<noteq>
       DocumentInfo_zero
   \<and> analyzeDocumentFromMat invoice_env OCREngine_new sample_image \<noteq> DocumentInfo_zero
   \<and> analyzeDocument invoice_env ready_engine ''missing.png'' = DocumentInfo_zero"
proof -
  let ?b = "sample_env (Some []) 0 None"
  have i: "initialized ready_engine" "preprocessing_enabled ready_engine"
    by (simp_all add: ready_engine_eq)
  have f: "cv_imread invoice_env ''scan.png'' = sample_image"
    "Mat_empty (cv_imread invoice_env ''missing.png'')"
    using sample_env_fields [of "Some ''Invoice 42''" 90 "Some sample_segments"]
    by (simp_all add: invoice_env_def)
  have r: "extractTextFromMat invoice_env ready_engine sample_image = OCRResult_default"
    using i by (rule preprocessed_never_recognized)
  have t: "ocr_text (extractTextFromMat invoice_env ready_engine sample_image) = []"
    by (simp add: r OCRResult_default_def)
  have x: "extractText invoice_env ready_engine ''scan.png'' =
      extractTextFromMat invoice_env ready_engine sample_image"
    using f(1) sample_image_ok by (simp add: extractText_def)
  have a: "analyzeDocument invoice_env ready_engine ''scan.png'' =
      analyzeDocumentFromMat invoice_env ready_engine sample_image"
    using f(1) sample_image_ok by (simp add: analyzeDocument_def)
  have d: "analyzeDocumentFromMat invoice_env ready_engine sample_image = DocumentInfo_default"
    using t by (rule analyzeDocumentFromMat_empty)
  have m: "document_type DocumentInfo_default = [] \<and> detected_fields DocumentInfo_default = []
      \<and> extracted_data DocumentInfo_default = Map.empty"
    by (simp add: DocumentInfo_default_def)
  have tb: "ocr_text (extractTextFromMat ?b plain_engine sample_image) = []"
    "confidence (extractTextFromMat ?b plain_engine sample_image) = Some 0"
    using sample_recognized [of "Some []" 0 None] by simp_all
  have z: "analyzeDocument invoice_env ready_engine ''missing.png'' = DocumentInfo_zero"
    using f(2) by (simp add: analyzeDocument_def)
  show ?thesis
    using t x a d m tb z empty_text_not_zero [OF t] empty_text_not_zero [OF tb(1)]
      empty_text_not_zero [OF uninitialized_text_empty [of invoice_env sample_image]]
    by simp
qed

section \<open>Batches\<close>

lemma foldl_snoc_map: "foldl (\<lambda>rs p. rs @ [f p]) acc ps = acc @ map f ps"
  by (induction ps arbitrary: acc) simp_all

lemma processBatch_map: "processBatch e eng paths = map (extractText e eng) paths"
  by (simp add: processBatch_def foldl_snoc_map)

lemma processBatch_length: "length (processBatch e eng paths) = length paths"
  by (simp add: processBatch_map)

lemma processBatch_nth:
  "i < length paths \<Longrightarrow> processBatch e eng paths ! i = extractText e eng (paths ! i)"
  by (simp add: processBatch_map)

lemma sum_confidences:
  "map confidence rs = map Some cs \<Longrightarrow>
     foldl (\<lambda>s result. add_confidence s (confidence result)) (Some a) rs = Some (a + sum_list cs)"
proof (induction rs arbitrary: a cs)
  case Nil
  then show ?case by simp
next
  case (Cons r rs)
  then obtain c cs' where cs: "cs = c # cs'" "confidence r = Some c" "map confidence rs = map Some cs'"
    by (cases cs) auto
  show ?case
    using Cons.IH [OF cs(3), of "a + c"] cs by (simp add: add_confidence_def add.assoc)
qed

lemma average_confidence_mean:
  "map confidence rs = map Some cs \<Longrightarrow>
     average_confidence rs = Some (if rs = [] then 0 else sum_list cs / real (length rs))"
  using sum_confidences [of rs cs 0] by (simp add: average_confidence_def)

lemma average_confidence_80_60:
  "average_confidence [r\<lparr>confidence := Some 80\<rparr>, r'\<lparr>confidence := Some 60\<rparr>] = Some 70"
  using average_confidence_mean
    [of "[r\<lparr>confidence := Some 80\<rparr>, r'\<lparr>confidence := Some 60\<rparr>]" "[80, 60]"]
  by simp

lemma average_confidence_empty: "average_confidence [] = Some 0"
  by (simp add: average_confidence_def)

text \<open>
  C6. The engine as \<^verbatim>\<open>main\<close> sets it up, given the batch of the readable file
  \<^verbatim>\<open>scan.png\<close> and the unreadable \<^verbatim>\<open>missing.png\<close>, returns two results in that order.
  The slot of the unreadable path holds \<^verbatim>\<open>OCRResult{}\<close>. The recognition of the
  readable one fails (the conversion to gray raises), and its slot holds a result whose
  confidence was never assigned: it is not \<^verbatim>\<open>OCRResult{}\<close>, and the average confidence
  the handler reports is indeterminate.
\<close>

theorem processBatch_failed_recognition:
  "processBatch invoice_env ready_engine [''scan.png'', ''missing.png''] =
     [OCRResult_default, OCRResult_zero]
   \<and> confidence (processBatch invoice_env ready_engine [''scan.png'', ''missing.png''] ! 0) = None
   \<and> processBatch invoice_env ready_engine [''scan.png'', ''missing.png''] ! 0 \<noteq> OCRResult_zero
   \<and> average_confidence (processBatch invoice_env ready_engine [''scan.png'', ''missing.png'']) =
       None
   \<and> handleBatchProcessing invoice_env ready_engine [''scan.png'', ''missing.png''] =
       Batch_200 2 None"
proof -
  have i: "initialized ready_engine" "preprocessing_enabled ready_engine"
    by (simp_all add: ready_engine_eq)
  have a: "extractText invoice_env ready_engine ''scan.png'' = OCRResult_default"
    using preprocessed_never_recognized [OF i, of invoice_env sample_image]
      sample_env_fields [of "Some ''Invoice 42''" 90 "Some sample_segments"] sample_image_ok
    by (simp add: extractText_def invoice_env_def)
  have b: "extractText invoice_env ready_engine ''missing.png'' = OCRResult_zero"
    using sample_env_fields [of "Some ''Invoice 42''" 90 "Some sample_segments"]
    by (simp add: extractText_unreadable invoice_env_def)
  have p: "processBatch invoice_env ready_engine [''scan.png'', ''missing.png''] =
      [OCRResult_default, OCRResult_zero]"
    using a b by (simp add: processBatch_def)
  show ?thesis
    unfolding handleBatchProcessing_def p
    by (simp add: OCRResult_default_def OCRResult_zero_def average_confidence_def
        add_confidence_def)
qed

section \<open>Deskewing\<close>

lemma max_element_largest:
  "max_element (\<lambda>a b. f a < f b) m xs \<in> set (m # xs)
   \<and> (\<forall>x \<in> set (m # xs). (f x :: real) \<le> f (max_element (\<lambda>a b. f a < f b) m xs))"
proof (induction xs arbitrary: m)
  case Nil
  show ?case by simp
next
  case (Cons x xs)
  show ?case
    using Cons.IH [of "if f m < f x then x else m"] by (auto split: if_splits)
qed

lemma deskewImage_no_contours: "findContours e input = Inr [] \<Longrightarrow> deskewImage e input = Inr input"
  by (simp add: deskewImage_def)

lemma deskewImage_contours:
  "findContours e input = Inr (c # cs) \<Longrightarrow>
     deskewImage e input =
       (let angle = adjust_angle (cv_minAreaRect_angle e
                      (max_element (\<lambda>a b. cv_contourArea e a < cv_contourArea e b) c cs))
        in if \<bar>angle\<bar> > 0.5
           then warpAffine e input
                  (getRotationMatrix2D (real (cols input) / 2, real (rows input) / 2) angle 1)
           else Inr input)"
  by (simp add: deskewImage_def Let_def)

text \<open>
  C3. \<^verbatim>\<open>deskewImage\<close> returns its input unchanged when no contour is found, and when the
  corrected angle of the minimum-area rectangle of the largest contour is at most 0.5 in
  absolute value; otherwise it returns the image rotated about its centre
  \<open>(cols / 2, rows / 2)\<close> by the corrected angle, at scale 1. The correction adds 90 to
  an angle below \<open>-45\<close> and leaves any other angle as it is: \<open>-50\<close> becomes 40, and 10
  stays 10.
\<close>

theorem deskewImage_cases:
  "(findContours e input = Inr [] \<longrightarrow> deskewImage e input = Inr input)
   \<and> (\<forall>c cs. findContours e input = Inr (c # cs) \<longrightarrow>
        (let angle = adjust_angle (cv_minAreaRect_angle e
                       (max_element (\<lambda>a b. cv_contourArea e a < cv_contourArea e b) c cs))
         in (\<bar>angle\<bar> \<le> 0.5 \<longrightarrow> deskewImage e input = Inr input)
          \<and> (\<bar>angle\<bar> > 0.5 \<longrightarrow>
               deskewImage e input =
                 warpAffine e input
                   (getRotationMatrix2D (real (cols input) / 2, real (rows input) / 2)
                      angle 1))))
   \<and> (\<forall>a. a < - 45 \<longrightarrow> adjust_angle a = a + 90)
   \<and> (\<forall>a. - 45 \<le> a \<longrightarrow> adjust_angle a = a)
   \<and> adjust_angle (- 50) = 40
   \<and> adjust_angle 10 = 10"
proof (intro conjI allI impI)
  show "deskewImage e input = Inr input" if "findContours e input = Inr []"
    using that by (rule deskewImage_no_contours)
next
  fix c cs
  assume "findContours e input = Inr (c # cs)"
  then show "let angle = adjust_angle (cv_minAreaRect_angle e
                 (max_element (\<lambda>a b. cv_contourArea e a < cv_contourArea e b) c cs))
      in (\<bar>angle\<bar> \<le> 0.5 \<longrightarrow> deskewImage e input = Inr input)
       \<and> (\<bar>angle\<bar> > 0.5 \<longrightarrow>
            deskewImage e input =
              warpAffine e input
                (getRotationMatrix2D (real (cols input) / 2, real (rows input) / 2) angle 1))"
    by (simp add: deskewImage_contours Let_def)
qed (simp_all add: adjust_angle_def)

lemma skew_env_fields:
  "findContours (skew_env a) m =
     Inr [[(0, 0), (1, 0), (1, 1)], [(0, 0), (4, 0), (4, 4), (0, 4)], [(2, 2)]]
   \<and> cv_contourArea (skew_env a) = (\<lambda>c. real (length c))
   \<and> cv_minAreaRect_angle (skew_env a) = (\<lambda>c. if length c = 4 then a else 0)
   \<and> warpAffine (skew_env a) m M = Inr (m\<lparr>data := (\<lambda>y x c. 255)\<rparr>)"
  by (simp add: skew_env_def findContours_def warpAffine_def in_place_def)

theorem deskewImage_cases_witness:
  "findContours blank_env gray_image = Inr []
   \<and> deskewImage blank_env gray_image = Inr gray_image
   \<and> deskewImage (skew_env 0.3) gray_image = Inr gray_image
   \<and> deskewImage (skew_env (- 50)) gray_image =
       warpAffine (skew_env (- 50)) gray_image (getRotationMatrix2D (4, 3) 40 1)
   \<and> deskewImage (skew_env 10) gray_image =
       warpAffine (skew_env 10) gray_image (getRotationMatrix2D (4, 3) 10 1)
   \<and> deskewImage (skew_env 10) gray_image = Inr (gray_image\<lparr>data := (\<lambda>y x c. 255)\<rparr>)"
proof -
  have n: "findContours blank_env gray_image = Inr []"
    by (simp add: findContours_def blank_env_def sample_env_def)
  have a: "adjust_angle 0.3 = 0.3"
    by (simp add: adjust_angle_def)
  have d: "cols gray_image = 8" "rows gray_image = 6"
    by (simp_all add: gray_image_def)
  show ?thesis
    using deskewImage_cases [of blank_env gray_image] n
      deskewImage_cases [of "skew_env 0.3" gray_image] skew_env_fields [of "0.3" gray_image]
      deskewImage_cases [of "skew_env (- 50)" gray_image]
      skew_env_fields [of "- 50" gray_image] skew_env_fields [of 10 gray_image]
      deskewImage_cases [of "skew_env 10" gray_image] a d
    by (simp add: Let_def)
qed

section \<open>Document type\<close>

lemma str_find_sublist: "str_find hay needle \<noteq> None \<longleftrightarrow> sublist needle hay"
  by (induction hay) (auto simp: sublist_Cons_right)

lemma detect_document_type_sublist:
  "detect_document_type l =
     (if sublist ''invoice'' l \<or> sublist ''bill'' l then ''invoice''
      else if sublist ''receipt'' l then ''receipt''
      else if sublist ''contract'' l \<or> sublist ''agreement'' l then ''contract''
      else if sublist ''financial'' l \<or> sublist ''report'' l then ''financial_report''
      else ''unknown'')"
  unfolding detect_document_type_def str_find_sublist by (rule refl)

lemma detect_document_type_rules:
  "detect_document_type (map c_tolower t) = first_matching_label t"
  unfolding detect_document_type_sublist
  by (simp add: first_matching_label_def type_rules_def rule_matches_def)

lemma sublist_map:
  assumes "sublist xs ys"
  shows "sublist (map f xs) (map f ys)"
proof -
  obtain ps ss where "ys = ps @ xs @ ss"
    using assms by (auto simp: sublist_def)
  then have "map f ys = map f ps @ map f xs @ map f ss"
    by simp
  then show ?thesis
    by (simp only: sublist_appendI)
qed

lemma lower_keywords:
  "map c_tolower ''invoice'' = ''invoice'' \<and> map c_tolower ''contract'' = ''contract''"
  by (simp add: c_tolower_def)

lemma extract_field_document_type:
  "document_type (foldl (extract_field t) info fs) = document_type info"
  by (induction fs arbitrary: info) (simp_all add: extract_field_def split: option.splits)

lemma analyzeDocumentFromMat_document_type:
  "ocr_text (extractTextFromMat e eng img) \<noteq> [] \<Longrightarrow>
     document_type (analyzeDocumentFromMat e eng img) =
       detect_document_type (map c_tolower (ocr_text (extractTextFromMat e eng img)))"
  by (simp add: analyzeDocumentFromMat_def Let_def extract_field_document_type)

text \<open>
  C4. For a non-empty recognized text, the document type is the label of the first of
  the rules (invoice, bill: \<^verbatim>\<open>invoice\<close>), (receipt: \<^verbatim>\<open>receipt\<close>), (contract, agreement:
  \<^verbatim>\<open>contract\<close>), (financial, report: \<^verbatim>\<open>financial_report\<close>) that has a keyword occurring
  in the lower-cased text, and \<^verbatim>\<open>unknown\<close> when no rule has one. A text that contains
  both \<^verbatim>\<open>invoice\<close> and \<^verbatim>\<open>contract\<close> is an invoice; a text whose lower-cased form
  contains no keyword is unknown.
\<close>

theorem document_type_first_rule:
  assumes "ocr_text (extractTextFromMat e eng img) = t" and "t \<noteq> []"
  shows "document_type (analyzeDocumentFromMat e eng img) = first_matching_label t
     \<and> (sublist ''invoice'' (map c_tolower t) \<and> sublist ''contract'' (map c_tolower t) \<longrightarrow>
          document_type (analyzeDocumentFromMat e eng img) = ''invoice'')
     \<and> (sublist ''invoice'' t \<and> sublist ''contract'' t \<longrightarrow>
          document_type (analyzeDocumentFromMat e eng img) = ''invoice'')
     \<and> ((\<forall>k \<in> set (concat (map fst type_rules)). \<not> sublist k (map c_tolower t)) \<longrightarrow>
          document_type (analyzeDocumentFromMat e eng img) = ''unknown'')"
proof -
  have d: "document_type (analyzeDocumentFromMat e eng img) = first_matching_label t"
    using assms analyzeDocumentFromMat_document_type [of e eng img]
    by (simp add: detect_document_type_rules)
  have inv: "sublist ''invoice'' (map c_tolower t) \<Longrightarrow> first_matching_label t = ''invoice''"
    by (simp add: first_matching_label_def type_rules_def rule_matches_def)
  have low: "sublist ''invoice'' t \<Longrightarrow> sublist ''invoice'' (map c_tolower t)"
    using sublist_map [of "''invoice''" t c_tolower] lower_keywords by simp
  have unk: "\<forall>k \<in> set (concat (map fst type_rules)). \<not> sublist k (map c_tolower t) \<Longrightarrow>
      first_matching_label t = ''unknown''"
    by (simp add: first_matching_label_def type_rules_def rule_matches_def)
  show ?thesis
    using d inv low unk by simp
qed

theorem document_type_first_rule_witness:
  "ocr_text (extractTextFromMat (sample_env (Some ''Contract for INVOICE 7'') 90 None)
       plain_engine sample_image) = ''Contract for INVOICE 7''
   \<and> sublist ''invoice'' (map c_tolower ''Contract for INVOICE 7'')
   \<and> sublist ''contract'' (map c_tolower ''Contract for INVOICE 7'')
   \<and> document_type (analyzeDocumentFromMat (sample_env (Some ''Contract for INVOICE 7'') 90 None)
       plain_engine sample_image) = ''invoice''
   \<and> ocr_text (extractTextFromMat (sample_env (Some ''Hello'') 90 None)
       plain_engine sample_image) = ''Hello''
   \<and> document_type (analyzeDocumentFromMat (sample_env (Some ''Hello'') 90 None)
       plain_engine sample_image) = ''unknown''
   \<and> document_type (analyzeDocumentFromMat (sample_env (Some ''Annual report'') 90 None)
       plain_engine sample_image) = ''financial_report''"
proof -
  let ?a = "''Contract for INVOICE 7''"
  have ta: "ocr_text (extractTextFromMat (sample_env (Some ?a) 90 None)
       plain_engine sample_image) = ?a"
    using sample_recognized [of "Some ?a" 90 None] by simp
  have sa: "sublist ''invoice'' (map c_tolower ?a) \<and> sublist ''contract'' (map c_tolower ?a)"
    by (simp add: str_find_sublist [symmetric] c_tolower_def)
  have th: "ocr_text (extractTextFromMat (sample_env (Some ''Hello'') 90 None)
       plain_engine sample_image) = ''Hello''"
    using sample_recognized [of "Some ''Hello''" 90 None] by simp
  have sh: "\<forall>k \<in> set (concat (map fst type_rules)). \<not> sublist k (map c_tolower ''Hello'')"
    by (simp add: type_rules_def str_find_sublist [symmetric] c_tolower_def)
  have tr: "ocr_text (extractTextFromMat (sample_env (Some ''Annual report'') 90 None)
       plain_engine sample_image) = ''Annual report''"
    using sample_recognized [of "Some ''Annual report''" 90 None] by simp
  have lr: "first_matching_label ''Annual report'' = ''financial_report''"
    by (simp add: first_matching_label_def type_rules_def rule_matches_def
        str_find_sublist [symmetric] c_tolower_def)
  have "?a \<noteq> []" "''Hello'' \<noteq> []" "''Annual report'' \<noteq> []"
    by simp_all
  then show ?thesis
    using document_type_first_rule [OF ta] sa ta
      document_type_first_rule [OF th] sh th
      document_type_first_rule [OF tr] lr
    by metis
qed

section \<open>Field extraction\<close>

text \<open>What a match of the pattern at the start of a text yields, part by part.\<close>

lemma match_capture_Some:
  assumes "match_capture s = Some v"
  shows "v \<noteq> [] \<and> CHR 0x0A \<notin> set v \<and> (\<exists>rest. s = v @ rest \<and> (rest = [] \<or> hd rest = CHR 0x0A))"
proof -
  let ?p = "\<lambda>c. c \<noteq> CHR 0x0A"
  have v: "v = takeWhile ?p s" "v \<noteq> []"
    using assms by (auto simp: match_capture_def Let_def split: if_splits)
  have "s = v @ dropWhile ?p s"
    using v by simp
  moreover have "dropWhile ?p s = [] \<or> hd (dropWhile ?p s) = CHR 0x0A"
    using hd_dropWhile [of ?p s] by auto
  moreover have "CHR 0x0A \<notin> set v"
    using v set_takeWhileD [of "CHR 0x0A" ?p s] by auto
  ultimately show ?thesis
    using v by blast
qed

lemma match_capture_start:
  "c \<noteq> CHR 0x0A \<Longrightarrow> match_capture (c # cs) \<noteq> None"
  by (simp add: match_capture_def)

lemma match_ws_capture_Some:
  "match_ws_capture s = Some v \<Longrightarrow>
     \<exists>ws rest. s = ws @ v @ rest \<and> (\<forall>c \<in> set ws. is_space c) \<and> v \<noteq> []
       \<and> CHR 0x0A \<notin> set v \<and> (rest = [] \<or> hd rest = CHR 0x0A)"
proof (induction s)
  case Nil
  then show ?case by (simp add: match_capture_def)
next
  case (Cons c cs)
  show ?case
  proof (cases "is_space c \<and> match_ws_capture cs \<noteq> None")
    case True
    then have "match_ws_capture cs = Some v"
      using Cons.prems by auto
    then obtain ws rest where "cs = ws @ v @ rest" "\<forall>c \<in> set ws. is_space c" "v \<noteq> []"
      "CHR 0x0A \<notin> set v" "rest = [] \<or> hd rest = CHR 0x0A"
      using Cons.IH by blast
    then have "c # cs = (c # ws) @ v @ rest \<and> (\<forall>c \<in> set (c # ws). is_space c) \<and> v \<noteq> []
       \<and> CHR 0x0A \<notin> set v \<and> (rest = [] \<or> hd rest = CHR 0x0A)"
      using True by simp
    then show ?thesis by blast
  next
    case False
    then have "match_capture (c # cs) = Some v"
      using Cons.prems by (auto split: if_splits option.splits)
    from match_capture_Some [OF this]
    obtain rest where "c # cs = [] @ v @ rest" "v \<noteq> []" "CHR 0x0A \<notin> set v"
      "rest = [] \<or> hd rest = CHR 0x0A"
      by auto
    then show ?thesis
      by (metis empty_iff empty_set)
  qed
qed

lemma match_ws_capture_complete:
  "\<forall>c \<in> set ws. is_space c \<Longrightarrow> v \<noteq> [] \<Longrightarrow> CHR 0x0A \<notin> set v \<Longrightarrow>
     match_ws_capture (ws @ v @ rest) \<noteq> None"
proof (induction ws)
  case Nil
  then obtain x xs where "v = x # xs" "x \<noteq> CHR 0x0A"
    by (cases v) auto
  then show ?case
    using match_capture_start [of x "xs @ rest"] by (auto split: option.splits)
next
  case (Cons c ws)
  then show ?case by (auto split: option.splits)
qed

lemma sep_not_space: "is_sep c \<Longrightarrow> \<not> is_space c"
  by (auto simp: is_sep_def is_space_def)

lemma match_ws_sep_Some:
  "match_ws_sep s = Some v \<Longrightarrow>
     \<exists>ws sep r. s = ws @ sep # r \<and> (\<forall>c \<in> set ws. is_space c) \<and> is_sep sep
       \<and> match_ws_capture r = Some v"
proof (induction s)
  case Nil
  then show ?case by (simp add: match_sep_def)
next
  case (Cons c cs)
  show ?case
  proof (cases "is_space c \<and> match_ws_sep cs \<noteq> None")
    case True
    then have "match_ws_sep cs = Some v"
      using Cons.prems by auto
    then obtain ws sep r where "cs = ws @ sep # r" "\<forall>c \<in> set ws. is_space c" "is_sep sep"
      "match_ws_capture r = Some v"
      using Cons.IH by blast
    then have "c # cs = (c # ws) @ sep # r \<and> (\<forall>c \<in> set (c # ws). is_space c) \<and> is_sep sep
       \<and> match_ws_capture r = Some v"
      using True by simp
    then show ?thesis by blast
  next
    case False
    then have "match_sep (c # cs) = Some v"
      using Cons.prems by (auto split: if_splits option.splits)
    then have "is_sep c \<and> match_ws_capture cs = Some v"
      by (auto simp: match_sep_def split: if_splits)
    then have "c # cs = [] @ c # cs \<and> (\<forall>c \<in> set []. is_space c) \<and> is_sep c
       \<and> match_ws_capture cs = Some v"
      by simp
    then show ?thesis by blast
  qed
qed

lemma match_ws_sep_complete:
  "\<forall>c \<in> set ws. is_space c \<Longrightarrow> is_sep sep \<Longrightarrow> match_ws_capture r \<noteq> None \<Longrightarrow>
     match_ws_sep (ws @ sep # r) \<noteq> None"
proof (induction ws)
  case Nil
  then show ?case
    using sep_not_space [of sep] by (auto simp: match_sep_def)
next
  case (Cons c ws)
  then show ?case by (auto split: option.splits)
qed

lemma match_field_Some:
  "match_field field s = Some v \<Longrightarrow>
     \<exists>name r. s = name @ r \<and> map c_tolower name = map c_tolower field \<and> match_ws_sep r = Some v"
proof (induction field s rule: match_field.induct)
  case (1 s)
  then have "s = [] @ s \<and> map c_tolower [] = map c_tolower [] \<and> match_ws_sep s = Some v"
    by simp
  then show ?case by blast
next
  case (2 p ps)
  then show ?case by simp
next
  case (3 p ps c cs)
  then have eq: "c_tolower c = c_tolower p" and m: "match_field ps cs = Some v"
    by (auto split: if_splits)
  then obtain name r where "cs = name @ r" "map c_tolower name = map c_tolower ps"
    "match_ws_sep r = Some v"
    using 3 by blast
  then have "c # cs = (c # name) @ r \<and> map c_tolower (c # name) = map c_tolower (p # ps)
     \<and> match_ws_sep r = Some v"
    using eq by simp
  then show ?case by blast
qed

lemma match_field_complete:
  "map c_tolower name = map c_tolower field \<Longrightarrow> match_field field (name @ r) = match_ws_sep r"
proof (induction field arbitrary: name)
  case Nil
  then show ?case by simp
next
  case (Cons p ps)
  then obtain c cs where "name = c # cs" "c_tolower c = c_tolower p"
    "map c_tolower cs = map c_tolower ps"
    by (cases name) auto
  then show ?case
    using Cons.IH [of cs] by simp
qed

lemma match_field_sound: "match_field field s = Some v \<Longrightarrow> field_match field s v"
proof -
  assume "match_field field s = Some v"
  then obtain name r where a: "s = name @ r" "map c_tolower name = map c_tolower field"
    "match_ws_sep r = Some v"
    using match_field_Some by blast
  then obtain ws1 sep r2 where b: "r = ws1 @ sep # r2" "\<forall>c \<in> set ws1. is_space c" "is_sep sep"
    "match_ws_capture r2 = Some v"
    using match_ws_sep_Some by blast
  then obtain ws2 rest where c: "r2 = ws2 @ v @ rest" "\<forall>c \<in> set ws2. is_space c" "v \<noteq> []"
    "CHR 0x0A \<notin> set v" "rest = [] \<or> hd rest = CHR 0x0A"
    using match_ws_capture_Some by blast
  have "s = name @ ws1 @ [sep] @ ws2 @ v @ rest"
    using a b c by simp
  then show ?thesis
    unfolding field_match_def using a(2) b(2,3) c(2-5) by blast
qed

lemma match_field_found: "field_match field s v \<Longrightarrow> match_field field s \<noteq> None"
proof -
  assume "field_match field s v"
  then obtain name ws1 sep ws2 rest where a: "s = name @ ws1 @ [sep] @ ws2 @ v @ rest"
    "map c_tolower name = map c_tolower field" "\<forall>c \<in> set ws1. is_space c" "is_sep sep"
    "\<forall>c \<in> set ws2. is_space c" "v \<noteq> []" "CHR 0x0A \<notin> set v"
    unfolding field_match_def by blast
  have "match_ws_capture (ws2 @ v @ rest) \<noteq> None"
    using a match_ws_capture_complete by blast
  then have "match_ws_sep (ws1 @ sep # ws2 @ v @ rest) \<noteq> None"
    using a match_ws_sep_complete by blast
  then show ?thesis
    using a match_field_complete [of name field "ws1 @ sep # ws2 @ v @ rest"] by simp
qed

lemma regex_search_None:
  "regex_search t field = None \<Longrightarrow> \<forall>pre suf. t = pre @ suf \<longrightarrow> match_field field suf = None"
proof (induction t)
  case Nil
  then show ?case by simp
next
  case (Cons c cs)
  have n: "match_field field (c # cs) = None" "regex_search cs field = None"
    using Cons.prems by (auto split: option.splits)
  show ?case
  proof (intro allI impI)
    fix pre suf
    assume h: "c # cs = pre @ suf"
    show "match_field field suf = None"
    proof (cases pre)
      case Nil
      then show ?thesis using h n(1) by simp
    next
      case (Cons x xs)
      then have "cs = xs @ suf"
        using h by simp
      then show ?thesis using Cons.IH [OF n(2)] by blast
    qed
  qed
qed

lemma regex_search_Some:
  "regex_search t field = Some v \<Longrightarrow>
     \<exists>pre suf. t = pre @ suf \<and> match_field field suf = Some v
       \<and> (\<forall>pre' suf'. t = pre' @ suf' \<and> length pre' < length pre \<longrightarrow>
             match_field field suf' = None)"
proof (induction t)
  case Nil
  have "([] :: string) = [] @ [] \<and> match_field field [] = Some v
      \<and> (\<forall>pre' suf'. ([] :: string) = pre' @ suf' \<and> length pre' < length ([] :: string) \<longrightarrow>
            match_field field suf' = None)"
    using Nil by simp
  then show ?case by blast
next
  case (Cons c cs)
  show ?case
  proof (cases "match_field field (c # cs)")
    case (Some w)
    have "c # cs = [] @ (c # cs) \<and> match_field field (c # cs) = Some v
      \<and> (\<forall>pre' suf'. c # cs = pre' @ suf' \<and> length pre' < length ([] :: string) \<longrightarrow>
            match_field field suf' = None)"
      using Cons.prems Some by simp
    then show ?thesis by blast
  next
    case None
    have "regex_search cs field = Some v"
      using Cons.prems None by simp
    then obtain pre suf where a: "cs = pre @ suf" "match_field field suf = Some v"
      "\<forall>pre' suf'. cs = pre' @ suf' \<and> length pre' < length pre \<longrightarrow> match_field field suf' = None"
      using Cons.IH by blast
    have "\<forall>pre' suf'. c # cs = pre' @ suf' \<and> length pre' < length (c # pre) \<longrightarrow>
        match_field field suf' = None"
    proof (intro allI impI)
      fix pre' suf'
      assume h: "c # cs = pre' @ suf' \<and> length pre' < length (c # pre)"
      show "match_field field suf' = None"
      proof (cases pre')
        case Nil
        then show ?thesis using h None by simp
      next
        case (Cons x xs)
        then have "cs = xs @ suf' \<and> length xs < length pre"
          using h by simp
        then show ?thesis using a(3) by blast
      qed
    qed
    then have "c # cs = (c # pre) @ suf \<and> match_field field suf = Some v
      \<and> (\<forall>pre' suf'. c # cs = pre' @ suf' \<and> length pre' < length (c # pre) \<longrightarrow>
            match_field field suf' = None)"
      using a(1,2) by simp
    then show ?thesis by blast
  qed
qed

text \<open>The loop over the fields.\<close>

text \<open>
  The whitespace after the separator is not part of the value, except when nothing but
  line breaks follows it: then the value is its last character.
\<close>

lemma match_ws_capture_None:
  "match_ws_capture s = None \<Longrightarrow> \<forall>c \<in> set s. c = CHR 0x0A"
proof (induction s)
  case Nil
  show ?case by simp
next
  case (Cons c cs)
  have a: "match_capture (c # cs) = None"
    using Cons.prems by (auto split: if_splits option.splits)
  then have c: "c = CHR 0x0A"
    by (auto simp: match_capture_def split: if_splits)
  then have "is_space c"
    by (simp add: is_space_def)
  then have "match_ws_capture cs = None"
    using Cons.prems by (auto split: option.splits)
  then show ?case
    using Cons.IH c by simp
qed

lemma match_ws_capture_trimmed:
  "match_ws_capture s = Some v \<Longrightarrow> is_space (hd v) \<Longrightarrow> length v = 1"
proof (induction s)
  case Nil
  then show ?case by (simp add: match_capture_def)
next
  case (Cons c cs)
  show ?case
  proof (cases "is_space c")
    case False
    then have "v = takeWhile (\<lambda>c. c \<noteq> CHR 0x0A) (c # cs)" "v \<noteq> []"
      using Cons.prems(1) by (auto simp: match_capture_def Let_def split: if_splits)
    then have "hd v = c"
      by (auto split: if_splits)
    then show ?thesis
      using False Cons.prems(2) by simp
  next
    case True
    show ?thesis
    proof (cases "match_ws_capture cs")
      case (Some w)
      then have "match_ws_capture cs = Some v"
        using True Cons.prems(1) by simp
      then show ?thesis
        using Cons.IH Cons.prems(2) by blast
    next
      case None
      then have nl: "\<forall>c \<in> set cs. c = CHR 0x0A"
        by (rule match_ws_capture_None)
      have "v = takeWhile (\<lambda>c. c \<noteq> CHR 0x0A) (c # cs)" "v \<noteq> []"
        using True None Cons.prems(1) by (auto simp: match_capture_def Let_def split: if_splits)
      then have "v = c # takeWhile (\<lambda>c. c \<noteq> CHR 0x0A) cs"
        by (auto split: if_splits)
      moreover have "takeWhile (\<lambda>c. c \<noteq> CHR 0x0A) cs = []"
        using nl by (cases cs) auto
      ultimately show ?thesis by simp
    qed
  qed
qed

lemma regex_search_trimmed:
  assumes "regex_search t f = Some v" and "is_space (hd v)"
  shows "length v = 1"
proof -
  obtain suf where "match_field f suf = Some v"
    using regex_search_Some [OF assms(1)] by blast
  then obtain r where "match_ws_sep r = Some v"
    using match_field_Some by blast
  then obtain r2 where "match_ws_capture r2 = Some v"
    using match_ws_sep_Some by blast
  then show ?thesis
    using assms(2) by (rule match_ws_capture_trimmed)
qed

lemma extract_field_step:
  "detected_fields (extract_field t info f) =
     detected_fields info @ (if regex_search t f \<noteq> None then [f] else [])"
  "extracted_data (extract_field t info f) =
     (case regex_search t f of
        None \<Rightarrow> extracted_data info
      | Some v \<Rightarrow> (extracted_data info)(f \<mapsto> v))"
  by (simp_all add: extract_field_def split: option.splits)

lemma extract_field_detected:
  "detected_fields (foldl (extract_field t) info fs) =
     detected_fields info @ filter (\<lambda>f. regex_search t f \<noteq> None) fs"
proof (induction fs arbitrary: info)
  case Nil
  show ?case by simp
next
  case (Cons f fs)
  show ?case
    by (simp add: Cons.IH extract_field_step(1))
qed

lemma extract_field_extracted:
  "extracted_data (foldl (extract_field t) info fs) f =
     (if f \<in> set fs \<and> regex_search t f \<noteq> None then regex_search t f else extracted_data info f)"
proof (induction fs arbitrary: info)
  case Nil
  show ?case by simp
next
  case (Cons g fs)
  show ?case
    by (cases "regex_search t g") (auto simp add: Cons.IH extract_field_step(2))
qed

lemma analyzeDocumentFromMat_fields:
  assumes "ocr_text (extractTextFromMat e eng img) = t" and "t \<noteq> []"
  shows "detected_fields (analyzeDocumentFromMat e eng img) =
       filter (\<lambda>f. regex_search t f \<noteq> None) fields
     \<and> extracted_data (analyzeDocumentFromMat e eng img) f =
       (if f \<in> set fields then regex_search t f else None)"
proof -
  let ?info = "DocumentInfo_default\<lparr>document_type := detect_document_type (map c_tolower t)\<rparr>"
  have a: "analyzeDocumentFromMat e eng img =
      (foldl (extract_field t) ?info fields)
        \<lparr>overall_confidence := confidence (extractTextFromMat e eng img)\<rparr>"
    using assms by (simp add: analyzeDocumentFromMat_def Let_def)
  have "detected_fields ?info = []" "extracted_data ?info f = None"
    by (simp_all add: DocumentInfo_default_def)
  then show ?thesis
    unfolding a
    using extract_field_detected [of t ?info fields] extract_field_extracted [of t ?info fields f]
    by auto
qed

lemma analyzeDocumentFromMat_detected:
  assumes "ocr_text (extractTextFromMat e eng img) = t" and "t \<noteq> []"
  shows "detected_fields (analyzeDocumentFromMat e eng img) =
       filter (\<lambda>f. regex_search t f \<noteq> None) fields"
  using analyzeDocumentFromMat_fields [OF assms] by (rule conjunct1)

lemma analyzeDocumentFromMat_extracted:
  assumes "ocr_text (extractTextFromMat e eng img) = t" and "t \<noteq> []"
  shows "extracted_data (analyzeDocumentFromMat e eng img) f =
       (if f \<in> set fields then regex_search t f else None)"
  using analyzeDocumentFromMat_fields [OF assms, of f] by (rule conjunct2)

lemma regex_search_first:
  assumes "regex_search t f = Some v"
  shows "\<exists>pre suf. t = pre @ suf \<and> field_match f suf v
      \<and> (\<forall>pre' suf' v'. t = pre' @ suf' \<and> length pre' < length pre \<longrightarrow> \<not> field_match f suf' v')"
proof -
  obtain pre suf where a: "t = pre @ suf" "match_field f suf = Some v"
    and b: "\<forall>pre' suf'. t = pre' @ suf' \<and> length pre' < length pre \<longrightarrow> match_field f suf' = None"
    using regex_search_Some [OF assms] by blast
  have c: "\<not> field_match f suf' v'" if "t = pre' @ suf'" "length pre' < length pre" for pre' suf' v'
  proof
    assume "field_match f suf' v'"
    then have "match_field f suf' \<noteq> None"
      by (rule match_field_found)
    moreover have "match_field f suf' = None"
      using b that by blast
    ultimately show False by simp
  qed
  have d: "field_match f suf v"
    using a(2) by (rule match_field_sound)
  show ?thesis
    using a(1) d c by blast
qed

lemma regex_search_absent:
  assumes "regex_search t f = None" and "t = pre @ suf"
  shows "\<not> field_match f suf v"
proof
  assume "field_match f suf v"
  then have "match_field f suf \<noteq> None"
    by (rule match_field_found)
  moreover have "match_field f suf = None"
    using regex_search_None [OF assms(1)] assms(2) by blast
  ultimately show False by simp
qed

text \<open>
  C5. For a non-empty recognized text, field extraction goes through the fixed list date,
  amount, total, name, address, phone, email and searches the text as recognized (not
  lower-cased) for each: \<open>detected_fields\<close> holds the fields that were found, in the
  order of the list, and \<open>extracted_data\<close> maps each of them to its value and no other
  key to anything. A value that is found belongs to the first place of the text where the
  field matches (name in any case, optional whitespace, colon or equals sign, optional
  whitespace, value up to the line break): no earlier place matches; a field that is not
  found matches nowhere in the text. The value does not begin with whitespace unless it
  is a single whitespace character.
\<close>

theorem field_extraction:
  assumes "ocr_text (extractTextFromMat e eng img) = t" and "t \<noteq> []"
  shows "fields = [''date'', ''amount'', ''total'', ''name'', ''address'', ''phone'', ''email'']
     \<and> detected_fields (analyzeDocumentFromMat e eng img) =
       filter (\<lambda>f. regex_search t f \<noteq> None) fields
     \<and> (\<forall>f. extracted_data (analyzeDocumentFromMat e eng img) f =
            (if f \<in> set fields then regex_search t f else None))
     \<and> (\<forall>f v. regex_search t f = Some v \<longrightarrow>
            (\<exists>pre suf. t = pre @ suf \<and> field_match f suf v
               \<and> (\<forall>pre' suf' v'. t = pre' @ suf' \<and> length pre' < length pre \<longrightarrow>
                     \<not> field_match f suf' v')))
     \<and> (\<forall>f. regex_search t f = None \<longrightarrow>
            (\<forall>pre suf v. t = pre @ suf \<longrightarrow> \<not> field_match f suf v))
     \<and> (\<forall>f v. regex_search t f = Some v \<and> is_space (hd v) \<longrightarrow> length v = 1)"
proof (intro conjI allI impI)
  show "fields = [''date'', ''amount'', ''total'', ''name'', ''address'', ''phone'', ''email'']"
    by (rule fields_def)
next
  show "detected_fields (analyzeDocumentFromMat e eng img) =
       filter (\<lambda>f. regex_search t f \<noteq> None) fields"
    using assms by (rule analyzeDocumentFromMat_detected)
next
  fix f
  show "extracted_data (analyzeDocumentFromMat e eng img) f =
       (if f \<in> set fields then regex_search t f else None)"
    using assms by (rule analyzeDocumentFromMat_extracted)
next
  fix f v
  assume "regex_search t f = Some v"
  then show "\<exists>pre suf. t = pre @ suf \<and> field_match f suf v
      \<and> (\<forall>pre' suf' v'. t = pre' @ suf' \<and> length pre' < length pre \<longrightarrow> \<not> field_match f suf' v')"
    by (rule regex_search_first)
next
  fix f pre suf v
  assume "regex_search t f = None" and "t = pre @ suf"
  then show "\<not> field_match f suf v"
    by (rule regex_search_absent)
next
  fix f v
  assume "regex_search t f = Some v \<and> is_space (hd v)"
  then show "length v = 1"
    using regex_search_trimmed by blast
qed

lemma example_search:
  "map (regex_search example_text) fields =
     [Some ''2024-01-05'', None, Some ''$450.00'', None, None, None, None]"
  by (simp add: example_text_def fields_def c_tolower_def is_space_def is_sep_def
      match_capture_def match_sep_def)

lemma example_recognized:
  "ocr_text (extractTextFromMat (sample_env (Some example_text) 90 None) plain_engine sample_image)
     = example_text"
  using sample_recognized [of "Some example_text" 90 None] by simp

lemma example_nonempty: "example_text \<noteq> []"
  by (simp add: example_text_def)

lemma example_values:
  "regex_search example_text ''date'' = Some ''2024-01-05''"
  "regex_search example_text ''amount'' = None"
  "regex_search example_text ''total'' = Some ''$450.00''"
  "regex_search example_text ''name'' = None"
  "regex_search example_text ''address'' = None"
  "regex_search example_text ''phone'' = None"
  "regex_search example_text ''email'' = None"
  using example_search unfolding fields_def by simp_all


theorem field_extraction_witness:
  "ocr_text (extractTextFromMat (sample_env (Some example_text) 90 None) plain_engine sample_image)
     = example_text
   \<and> example_text \<noteq> []
   \<and> detected_fields
       (analyzeDocumentFromMat (sample_env (Some example_text) 90 None) plain_engine sample_image)
     = [''date'', ''total'']
   \<and> extracted_data
       (analyzeDocumentFromMat (sample_env (Some example_text) 90 None) plain_engine sample_image)
     = [''date'' \<mapsto> ''2024-01-05'', ''total'' \<mapsto> ''$450.00'']
   \<and> (\<exists>pre suf. example_text = pre @ suf \<and> field_match ''total'' suf ''$450.00'')
   \<and> (\<forall>v. \<not> field_match ''amount'' example_text v)"
proof -
  let ?e = "sample_env (Some example_text) 90 None"
  let ?info = "analyzeDocumentFromMat ?e plain_engine sample_image"
  note th = field_extraction [OF example_recognized example_nonempty]
  have d: "detected_fields ?info = filter (\<lambda>f. regex_search example_text f \<noteq> None) fields"
    using th by (rule conjunct1 [OF conjunct2])
  have d': "detected_fields ?info = [''date'', ''total'']"
    unfolding d fields_def by (simp add: example_values)
  have x: "\<forall>f. extracted_data ?info f =
      (if f \<in> set fields then regex_search example_text f else None)"
    using th by (rule conjunct1 [OF conjunct2 [OF conjunct2]])
  have "extracted_data ?info f = [''date'' \<mapsto> ''2024-01-05'', ''total'' \<mapsto> ''$450.00''] f" for f
  proof (cases "f \<in> set fields")
    case True
    then have "f = ''date'' \<or> f = ''amount'' \<or> f = ''total'' \<or> f = ''name''
        \<or> f = ''address'' \<or> f = ''phone'' \<or> f = ''email''"
      by (simp add: fields_def)
    then show ?thesis
      using x True by (elim disjE) (simp_all add: example_values)
  next
    case False
    then have "f \<noteq> ''date''" "f \<noteq> ''total''"
      by (auto simp: fields_def)
    then show ?thesis
      using x False by simp
  qed
  then have x': "extracted_data ?info = [''date'' \<mapsto> ''2024-01-05'', ''total'' \<mapsto> ''$450.00'']"
    by (rule ext)
  note found = th [THEN conjunct2, THEN conjunct2, THEN conjunct2, THEN conjunct1]
  have "\<exists>pre suf. example_text = pre @ suf \<and> field_match ''total'' suf ''$450.00''
      \<and> (\<forall>pre' suf' v'. example_text = pre' @ suf' \<and> length pre' < length pre \<longrightarrow>
            \<not> field_match ''total'' suf' v')"
    using found [THEN spec, THEN spec, THEN mp, OF example_values(3)] .
  then have m: "\<exists>pre suf. example_text = pre @ suf \<and> field_match ''total'' suf ''$450.00''"
    by blast
  note absent = th [THEN conjunct2, THEN conjunct2, THEN conjunct2, THEN conjunct2,
      THEN conjunct1]
  have "\<forall>pre suf v. example_text = pre @ suf \<longrightarrow> \<not> field_match ''amount'' suf v"
    using absent [THEN spec, THEN mp, OF example_values(2)] .
  then have a: "\<forall>v. \<not> field_match ''amount'' example_text v"
    using append_Nil [of example_text] by metis
  show ?thesis
    using example_recognized example_nonempty d' x' m a by blast
qed

end
